theory Spec2Isabelle
  imports Main "HOL-Library.Word"
begin

unbundle bit_operations_syntax

section \<open>Strings\<close>

text \<open>
  A JavaScript string is a sequence of UTF-16 code units. The model uses \<^typ>\<open>string\<close>: every
  \<^typ>\<open>char\<close> is one code unit in the range U+0000 to U+00FF (ASCII and Latin-1), which covers
  the e-mail addresses, telephone numbers and numeric codes the workflows handle.
\<close>

definition code_unit :: "char \<Rightarrow> nat" where
  "code_unit c = of_char c"

text \<open>The regular-expression class \<open>\s\<close> on code units below 256: TAB, LF, VT, FF, CR,
  SPACE and NO-BREAK SPACE.\<close>

definition is_space :: "char \<Rightarrow> bool" where
  "is_space c = (code_unit c \<in> set [9, 10, 11, 12, 13, 32, 160])"

text \<open>The class \<open>\d\<close>: the ten ASCII digits; \<open>\D\<close> is its complement.\<close>

definition is_digit :: "char \<Rightarrow> bool" where
  "is_digit c = (48 \<le> code_unit c \<and> code_unit c \<le> 57)"

text \<open>\<open>String.prototype.toLowerCase\<close> on code units below 256: the letters A to Z and
  the Latin-1 capitals U+00C0 to U+00DE (without the multiplication sign U+00D7) move up by 32.\<close>

definition lower_char :: "char \<Rightarrow> char" where
  "lower_char c =
     (let n = code_unit c in
      if (65 \<le> n \<and> n \<le> 90) \<or> (192 \<le> n \<and> n \<le> 222 \<and> n \<noteq> 215)
      then char_of (n + 32) else c)"

definition toLowerCase :: "string \<Rightarrow> string" where
  "toLowerCase s = map lower_char s"

text \<open>\<open>s.replace(/\D/g, '')\<close>: every non-digit is removed.\<close>

definition strip_non_digits :: "string \<Rightarrow> string" where
  "strip_non_digits s = filter is_digit s"

definition startsWith :: "string \<Rightarrow> string \<Rightarrow> bool" where
  "startsWith s p = (take (length p) s = p)"

text \<open>
  \<open>/^[^\s@]+@[^\s@]+\.[^\s@]+$/.test(s)\<close>. The three groups exclude white space and \<open>@\<close>, so a
  match has exactly one \<open>@\<close>, a non-empty local part, and after the \<open>@\<close> a dot that is neither
  the first nor the last character.
\<close>

definition local_char :: "char \<Rightarrow> bool" where
  "local_char c = (\<not> is_space c \<and> c \<noteq> CHR ''@'')"

definition emailRegex_test :: "string \<Rightarrow> bool" where
  "emailRegex_test s =
     (let a = takeWhile (\<lambda>c. c \<noteq> CHR ''@'') s;
          r = dropWhile (\<lambda>c. c \<noteq> CHR ''@'') s
      in a \<noteq> [] \<and> list_all local_char a \<and> r \<noteq> [] \<and>
         list_all local_char (tl r) \<and> CHR ''.'' \<in> set (butlast (tl (tl r))))"

section \<open>Hashing utility\<close>

text \<open>Bytes are natural numbers below 256; the 32-bit words of the digest are integers, with
  the reduction modulo \<open>2 ^ 32\<close> written out.\<close>

subsection \<open>\<open>TextEncoder.encode\<close>: UTF-8\<close>

definition utf8_char :: "char \<Rightarrow> nat list" where
  "utf8_char c =
     (let n = code_unit c
      in if n < 128 then [n] else [192 + n div 64, 128 + n mod 64])"

definition encode :: "string \<Rightarrow> nat list" where
  "encode s = concat (map utf8_char s)"

subsection \<open>\<open>crypto.subtle.digest('SHA-256', _)\<close>: the digest of FIPS 180-4\<close>

text \<open>The round constants: the first 32 bits of the fractional parts of the cube roots of
  the first 64 primes.\<close>

definition K256 :: "int list" where
  "K256 = [
   1116352408, 1899447441, 3049323471, 3921009573, 961987163, 1508970993,
   2453635748, 2870763221, 3624381080, 310598401, 607225278, 1426881987,
   1925078388, 2162078206, 2614888103, 3248222580, 3835390401, 4022224774,
   264347078, 604807628, 770255983, 1249150122, 1555081692, 1996064986,
   2554220882, 2821834349, 2952996808, 3210313671, 3336571891, 3584528711,
   113926993, 338241895, 666307205, 773529912, 1294757372, 1396182291,
   1695183700, 1986661051, 2177026350, 2456956037, 2730485921, 2820302411,
   3259730800, 3345764771, 3516065817, 3600352804, 4094571909, 275423344,
   430227734, 506948616, 659060556, 883997877, 958139571, 1322822218,
   1537002063, 1747873779, 1955562222, 2024104815, 2227730452, 2361852424,
   2428436474, 2756734187, 3204031479, 3329325298]"

type_synonym sha_state = "int \<times> int \<times> int \<times> int \<times> int \<times> int \<times> int \<times> int"

text \<open>The initial state: the first 32 bits of the fractional parts of the square roots of
  the first 8 primes.\<close>

definition H0 :: sha_state where
  "H0 = (1779033703, 3144134277, 1013904242, 2773480762,
         1359893119, 2600822924, 528734635, 1541459225)"

definition add32 :: "int \<Rightarrow> int \<Rightarrow> int" where
  "add32 x y = (x + y) mod 4294967296"

text \<open>Rotation to the right by \<open>n\<close> bits, given \<open>p = 2 ^ n\<close>.\<close>

definition rotr :: "int \<Rightarrow> int \<Rightarrow> int" where
  "rotr p x = x div p + (x mod p) * (4294967296 div p)"

definition Ch :: "int \<Rightarrow> int \<Rightarrow> int \<Rightarrow> int" where
  "Ch x y z = (x AND y) XOR ((4294967295 - x) AND z)"

definition Maj :: "int \<Rightarrow> int \<Rightarrow> int \<Rightarrow> int" where
  "Maj x y z = (x AND y) XOR (x AND z) XOR (y AND z)"

definition bsig0 :: "int \<Rightarrow> int" where
  "bsig0 x = rotr 4 x XOR rotr 8192 x XOR rotr 4194304 x"

definition bsig1 :: "int \<Rightarrow> int" where
  "bsig1 x = rotr 64 x XOR rotr 2048 x XOR rotr 33554432 x"

definition ssig0 :: "int \<Rightarrow> int" where
  "ssig0 x = rotr 128 x XOR rotr 262144 x XOR x div 8"

definition ssig1 :: "int \<Rightarrow> int" where
  "ssig1 x = rotr 131072 x XOR rotr 524288 x XOR x div 1024"

text \<open>Padding: the message, the byte 0x80, zero bytes up to 56 modulo 64, and the length in
  bits as a 64-bit big-endian number.\<close>

definition len_bytes :: "nat \<Rightarrow> nat list" where
  "len_bytes n =
     map (\<lambda>p. nat ((int n div p) mod 256))
       [72057594037927936, 281474976710656, 1099511627776, 4294967296, 16777216, 65536, 256, 1]"

definition pad :: "nat list \<Rightarrow> nat list" where
  "pad m = m @ [128] @ replicate ((119 - length m mod 64) mod 64) 0 @ len_bytes (8 * length m)"

fun words_of :: "nat list \<Rightarrow> int list" where
  "words_of (a # b # c # d # r) =
     (16777216 * int a + 65536 * int b + 256 * int c + int d) # words_of r"
| "words_of _ = []"

text \<open>The message schedule is kept as a window of sixteen words: each round consumes the
  first word and appends the next one.\<close>

definition next_word :: "int list \<Rightarrow> int" where
  "next_word w = add32 (add32 (add32 (ssig1 (w ! 14)) (w ! 9)) (ssig0 (w ! 1))) (w ! 0)"

fun sha_round :: "sha_state \<times> int list \<Rightarrow> int \<Rightarrow> sha_state \<times> int list" where
  "sha_round ((a, b, c, d, e, f, g, h), w) k =
     (let t1 = add32 (add32 (add32 (add32 h (bsig1 e)) (Ch e f g)) k) (hd w);
          t2 = add32 (bsig0 a) (Maj a b c)
      in ((add32 t1 t2, a, b, c, add32 d t1, e, f, g), tl w @ [next_word w]))"

fun add_state :: "sha_state \<Rightarrow> sha_state \<Rightarrow> sha_state" where
  "add_state (a, b, c, d, e, f, g, h) (a', b', c', d', e', f', g', h') =
     (add32 a a', add32 b b', add32 c c', add32 d d',
      add32 e e', add32 f f', add32 g g', add32 h h')"

definition compress :: "sha_state \<Rightarrow> int list \<Rightarrow> sha_state" where
  "compress hs blk = add_state hs (fst (foldl sha_round (hs, blk) K256))"

fun sha_blocks :: "sha_state \<Rightarrow> int list \<Rightarrow> sha_state" where
  "sha_blocks hs ws =
     (if length ws < 16 then hs else sha_blocks (compress hs (take 16 ws)) (drop 16 ws))"

definition word_bytes :: "int \<Rightarrow> nat list" where
  "word_bytes w =
     map nat [w div 16777216, (w div 65536) mod 256, (w div 256) mod 256, w mod 256]"

fun state_bytes :: "sha_state \<Rightarrow> nat list" where
  "state_bytes (a, b, c, d, e, f, g, h) = concat (map word_bytes [a, b, c, d, e, f, g, h])"

definition digest_SHA256 :: "nat list \<Rightarrow> nat list" where
  "digest_SHA256 m = state_bytes (sha_blocks H0 (words_of (pad m)))"

subsection \<open>\<open>b.toString(16).padStart(2, '0')\<close> and the two hashing functions\<close>

definition hex_digit :: "nat \<Rightarrow> char" where
  "hex_digit d = ''0123456789abcdef'' ! d"

definition toString16 :: "nat \<Rightarrow> string" where
  "toString16 n = (if n < 16 then [hex_digit n] else [hex_digit (n div 16), hex_digit (n mod 16)])"

definition padStart2 :: "string \<Rightarrow> string" where
  "padStart2 s = replicate (2 - length s) CHR ''0'' @ s"

definition hashString :: "string \<Rightarrow> string" where
  "hashString data =
     (let dataBuffer = encode data;
          hashBuffer = digest_SHA256 dataBuffer;
          hashArray = hashBuffer
      in concat (map (\<lambda>b. padStart2 (toString16 b)) hashArray))"

definition hashCode :: "string \<Rightarrow> string" where
  "hashCode code =
     (let data = encode code;
          hashBuffer = digest_SHA256 data;
          hashArray = hashBuffer
      in concat (map (\<lambda>b. padStart2 (toString16 b)) hashArray))"

text \<open>The digest scheme in the words of the specification: the SHA-256 digest of the UTF-8
  bytes, two lower-case hexadecimal digits per byte.\<close>

definition hex_byte :: "nat \<Rightarrow> string" where
  "hex_byte b = [hex_digit (b div 16), hex_digit (b mod 16)]"

definition hex_sha256_utf8 :: "string \<Rightarrow> string" where
  "hex_sha256_utf8 s = concat (map hex_byte (digest_SHA256 (encode s)))"

section \<open>Responses\<close>

datatype body =
    Text string
  | RateLimitResult bool int
  | Error string
  | InvalidCodes string int
  | DeliveryError string string string string
  | Created nat string
  | Message string
  | Count nat

record response =
  status :: nat
  body :: body

definition json :: "body \<Rightarrow> nat \<Rightarrow> response" where
  "json b s = \<lparr>status = s, body = b\<rparr>"

definition json_ok :: "body \<Rightarrow> response" where
  "json_ok b = \<lparr>status = 200, body = b\<rparr>"

section \<open>Rate limiter\<close>

record window =
  count :: int
  resetTime :: int

type_synonym storage = "string \<rightharpoonup> window"

definition windowMs :: int where
  "windowMs = 60000"

definition maxRequests :: int where
  "maxRequests = 5"

text \<open>
  \<open>RateLimiter.fetch\<close>: \<open>key\<close> is the result of \<open>url.searchParams.get('key')\<close>, \<open>now\<close> the
  reading of \<open>Date.now()\<close> in milliseconds. The function returns the response and the storage of
  the durable object after the request.
\<close>

definition new_window :: "string \<Rightarrow> int \<Rightarrow> storage \<Rightarrow> response \<times> storage" where
  "new_window key now st =
     (json_ok (RateLimitResult True (maxRequests - 1)),
      st(key \<mapsto> \<lparr>count = 1, resetTime = now + windowMs\<rparr>))"

definition fetch :: "string option \<Rightarrow> int \<Rightarrow> storage \<Rightarrow> response \<times> storage" where
  "fetch key_param now st =
     (case key_param of
        None \<Rightarrow> (json (Text ''Missing key'') 400, st)
      | Some key \<Rightarrow>
          if key = [] then (json (Text ''Missing key'') 400, st)
          else
            (case st key of
               None \<Rightarrow> new_window key now st
             | Some data \<Rightarrow>
                 if now > resetTime data then new_window key now st
                 else if count data \<ge> maxRequests then
                   (json (RateLimitResult False 0) 429, st)
                 else
                   (json_ok (RateLimitResult True (maxRequests - count data - 1)),
                    st(key \<mapsto> \<lparr>count = count data + 1, resetTime = resetTime data\<rparr>))))"

text \<open>What the caller reads from the limiter's response: the field \<open>allowed\<close>.\<close>

definition allowed :: "response \<Rightarrow> bool" where
  "allowed r = (case body r of RateLimitResult a _ \<Rightarrow> a | _ \<Rightarrow> False)"

text \<open>A sequence of requests for one key, at the given times: the \<open>allowed\<close> flag of
  every response, and the storage at the end.\<close>

fun requests :: "string \<Rightarrow> int list \<Rightarrow> storage \<Rightarrow> bool list \<times> storage" where
  "requests key [] st = ([], st)"
| "requests key (t # ts) st =
     (case fetch (Some key) t st of
        (r, st') \<Rightarrow> (case requests key ts st' of (as, st'') \<Rightarrow> (allowed r # as, st'')))"

text \<open>No window is active for the key at time \<open>now\<close>.\<close>

definition no_active_window :: "storage \<Rightarrow> string \<Rightarrow> int \<Rightarrow> bool" where
  "no_active_window st key now =
     (case st key of None \<Rightarrow> True | Some data \<Rightarrow> now > resetTime data)"

section \<open>Persistent store\<close>

text \<open>
  The tables \<open>public_signatures\<close>, \<open>verification_codes\<close> and \<open>initial_signatories\<close>. Times are
  milliseconds since the epoch; the flags \<open>email_verified\<close> and \<open>phone_verified\<close> hold 0 or 1
  and are booleans here. The structured address columns added by the migration are bound like
  \<open>address\<close> and never read by the workflows; they are left out.
\<close>

record signature =
  sig_id :: nat
  sig_name :: string
  email_hash :: string
  phone_hash :: string
  sig_position :: "string option"
  sig_institution :: "string option"
  sig_address :: "string option"
  email_verified :: bool
  phone_verified :: bool
  verification_completed_at :: "int option"

record verification_code =
  code_id :: nat
  signature_id :: nat
  code_type :: string
  code_hash :: string
  expires_at :: int
  attempts :: int
  verified_at :: "int option"

record initial_signatory =
  signatory_id :: nat
  first_name :: string
  last_name :: string

record database =
  public_signatures :: "signature list"
  public_signatures_seq :: nat
  verification_codes :: "verification_code list"
  verification_codes_seq :: nat
  initial_signatories :: "initial_signatory list"

text \<open>\<open>INTEGER PRIMARY KEY AUTOINCREMENT\<close>: one more than the largest row id the table has
  ever held.\<close>

definition next_signature_id :: "database \<Rightarrow> nat" where
  "next_signature_id d =
     Suc (max (public_signatures_seq d) (fold max (map sig_id (public_signatures d)) 0))"

definition next_code_id :: "database \<Rightarrow> nat" where
  "next_code_id d =
     Suc (max (verification_codes_seq d) (fold max (map code_id (verification_codes d)) 0))"

definition insert_signature :: "signature \<Rightarrow> database \<Rightarrow> nat \<times> database" where
  "insert_signature row d =
     (let i = next_signature_id d
      in (i, d\<lparr>public_signatures := public_signatures d @ [row\<lparr>sig_id := i\<rparr>],
               public_signatures_seq := i\<rparr>))"

definition insert_code :: "nat \<Rightarrow> string \<Rightarrow> string \<Rightarrow> int \<Rightarrow> database \<Rightarrow> database" where
  "insert_code signatureId ty h expiresAt d =
     (let i = next_code_id d
      in d\<lparr>verification_codes := verification_codes d @
               [\<lparr>code_id = i, signature_id = signatureId, code_type = ty, code_hash = h,
                 expires_at = expiresAt, attempts = 0, verified_at = None\<rparr>],
            verification_codes_seq := i\<rparr>)"

text \<open>\<open>DELETE FROM public_signatures WHERE id = ?\<close>; the foreign key of
  \<open>verification_codes\<close> is declared \<open>ON DELETE CASCADE\<close>.\<close>

definition delete_signature :: "nat \<Rightarrow> database \<Rightarrow> database" where
  "delete_signature i d =
     d\<lparr>public_signatures := filter (\<lambda>r. sig_id r \<noteq> i) (public_signatures d),
       verification_codes := filter (\<lambda>c. signature_id c \<noteq> i) (verification_codes d)\<rparr>"

section \<open>Signature submission\<close>

record signature_body =
  name :: "string option"
  email :: "string option"
  mobile :: "string option"
  position :: "string option"
  institution :: "string option"
  address :: "string option"

text \<open>A request: the header \<open>CF-Connecting-IP\<close> and the parsed JSON body (\<open>None\<close> when
  \<open>c.req.json()\<close> throws). Body fields are strings; \<open>None\<close> is an absent or null field.\<close>

record request =
  cf_connecting_ip :: "string option"
  json_body :: "signature_body option"

record js_error =
  error_name :: string
  error_message :: string

text \<open>
  What the handler takes from its environment: the two readings of the clock (in the rate
  limiter and in \<open>getCodeExpiryTime\<close>), the two results of \<open>generateVerificationCode\<close>, and
  the outcome of each dispatch (\<open>None\<close> when it succeeds, the error thrown otherwise; when both
  fail, \<open>Promise.all\<close> rejects with the one that fails first).
\<close>

record env =
  limiter_now :: int
  expiry_now :: int
  generated_emailCode :: string
  generated_smsCode :: string
  sendEmailVerification :: "js_error option"
  sendSmsVerification :: "js_error option"
  sms_rejects_first :: bool

record state =
  rate_limiter :: "string \<Rightarrow> storage"
  db :: database

definition falsy :: "string option \<Rightarrow> bool" where
  "falsy v = (case v of None \<Rightarrow> True | Some s \<Rightarrow> s = [])"

definition str :: "string option \<Rightarrow> string" where
  "str v = (case v of None \<Rightarrow> [] | Some s \<Rightarrow> s)"

definition or_null :: "string option \<Rightarrow> string option" where
  "or_null v = (if falsy v then None else v)"

definition client_ip :: "request \<Rightarrow> string" where
  "client_ip req = (if falsy (cf_connecting_ip req) then ''unknown'' else str (cf_connecting_ip req))"

text \<open>The call of the durable object named after the client address, with the address as key.\<close>

definition rateLimitResponse :: "env \<Rightarrow> request \<Rightarrow> state \<Rightarrow> response" where
  "rateLimitResponse e req s =
     fst (fetch (Some (client_ip req)) (limiter_now e) (rate_limiter s (client_ip req)))"

definition after_rate_limit :: "env \<Rightarrow> request \<Rightarrow> state \<Rightarrow> state" where
  "after_rate_limit e req s =
     s\<lparr>rate_limiter := (rate_limiter s)
          (client_ip req :=
             snd (fetch (Some (client_ip req)) (limiter_now e) (rate_limiter s (client_ip req))))\<rparr>"

definition internal_server_error :: response where
  "internal_server_error = json (Error ''Internal server error'') 500"

definition too_many_requests :: response where
  "too_many_requests = json (Error ''Too many requests'') 429"

definition missing_required_fields :: response where
  "missing_required_fields = json (Error ''Missing required fields'') 400"

definition invalid_email_format :: response where
  "invalid_email_format = json (Error ''Invalid email format'') 400"

definition invalid_mobile :: response where
  "invalid_mobile =
     json (Error ''Invalid Australian mobile number. Must be 10 digits starting with 04.'') 400"

definition already_used :: response where
  "already_used = json (Error ''This email or phone number has already been used to sign'') 409"

definition cleanMobile :: "signature_body \<Rightarrow> string" where
  "cleanMobile b = strip_non_digits (str (mobile b))"

definition emailHash :: "signature_body \<Rightarrow> string" where
  "emailHash b = hashString (toLowerCase (str (email b)))"

definition phoneHash :: "signature_body \<Rightarrow> string" where
  "phoneHash b = hashString (cleanMobile b)"

text \<open>Input validation: the response of the first check that fails.\<close>

definition validate_input :: "signature_body \<Rightarrow> response option" where
  "validate_input b =
     (if falsy (name b) \<or> falsy (email b) \<or> falsy (mobile b) then Some missing_required_fields
      else if \<not> emailRegex_test (str (email b)) then Some invalid_email_format
      else if length (cleanMobile b) \<noteq> 10 \<or> \<not> startsWith (cleanMobile b) ''04''
      then Some invalid_mobile
      else None)"

text \<open>\<open>SELECT id FROM public_signatures WHERE email_hash = ? OR phone_hash = ?\<close> finds a row.\<close>

definition existingSignature :: "signature_body \<Rightarrow> database \<Rightarrow> bool" where
  "existingSignature b d =
     list_ex (\<lambda>r. email_hash r = emailHash b \<or> phone_hash r = phoneHash b) (public_signatures d)"

definition new_signature :: "signature_body \<Rightarrow> signature" where
  "new_signature b =
     \<lparr>sig_id = 0, sig_name = str (name b), email_hash = emailHash b, phone_hash = phoneHash b,
      sig_position = or_null (position b), sig_institution = or_null (institution b),
      sig_address = or_null (address b), email_verified = False, phone_verified = False,
      verification_completed_at = None\<rparr>"

definition getCodeExpiryTime :: "env \<Rightarrow> int" where
  "getCodeExpiryTime e = expiry_now e + 10 * 60000"

text \<open>The signature row and its two code rows, as the handler inserts them.\<close>

definition store_pending :: "env \<Rightarrow> signature_body \<Rightarrow> database \<Rightarrow> nat \<times> database" where
  "store_pending e b d =
     (case insert_signature (new_signature b) d of
        (signatureId, d1) \<Rightarrow>
          let emailCodeHash = hashCode (generated_emailCode e);
              smsCodeHash = hashCode (generated_smsCode e);
              expiresAt = getCodeExpiryTime e;
              d2 = insert_code signatureId ''email'' emailCodeHash expiresAt d1;
              d3 = insert_code signatureId ''phone'' smsCodeHash expiresAt d2
          in (signatureId, d3))"

text \<open>Every e-mail hash and every telephone hash backs at most one row of
  \<open>public_signatures\<close>.\<close>

definition unique_identities :: "database \<Rightarrow> bool" where
  "unique_identities d =
     (distinct (map email_hash (public_signatures d)) \<and>
      distinct (map phone_hash (public_signatures d)))"

text \<open>\<open>Promise.all\<close> of the two dispatches: the error the \<open>catch\<close> block receives, if any.\<close>

definition send_all :: "env \<Rightarrow> js_error option" where
  "send_all e =
     (case sendEmailVerification e of
        None \<Rightarrow> sendSmsVerification e
      | Some x \<Rightarrow>
          (case sendSmsVerification e of
             None \<Rightarrow> Some x
           | Some y \<Rightarrow> Some (if sms_rejects_first e then y else x)))"

definition error_toString :: "js_error \<Rightarrow> string" where
  "error_toString x =
     (if error_name x = [] then error_message x
      else if error_message x = [] then error_name x
      else error_name x @ '': '' @ error_message x)"

definition delivery_failed :: "js_error \<Rightarrow> response" where
  "delivery_failed x =
     json (DeliveryError ''Failed to send verification codes. Please try again.''
             (error_message x) (error_name x) (error_toString x)) 500"

definition codes_sent :: "nat \<Rightarrow> response" where
  "codes_sent signatureId =
     json_ok (Created signatureId ''Verification codes sent to your email and phone'')"

text \<open>\<open>app.post('/api/signatures')\<close>.\<close>

definition post_signatures :: "env \<Rightarrow> request \<Rightarrow> state \<Rightarrow> response \<times> state" where
  "post_signatures e req s =
     (case json_body req of
        None \<Rightarrow> (internal_server_error, s)
      | Some b \<Rightarrow>
          let s1 = after_rate_limit e req s
          in (case body (rateLimitResponse e req s) of
                RateLimitResult is_allowed _ \<Rightarrow>
                  if \<not> is_allowed then (too_many_requests, s1)
                  else
                    (case validate_input b of
                       Some r \<Rightarrow> (r, s1)
                     | None \<Rightarrow>
                         if existingSignature b (db s1) then (already_used, s1)
                         else
                           (case store_pending e b (db s1) of
                              (signatureId, d3) \<Rightarrow>
                                (case send_all e of
                                   Some x \<Rightarrow>
                                     (delivery_failed x,
                                      s1\<lparr>db := delete_signature signatureId d3\<rparr>)
                                 | None \<Rightarrow> (codes_sent signatureId, s1\<lparr>db := d3\<rparr>))))
              | _ \<Rightarrow> (internal_server_error, s1)))"

section \<open>Verification\<close>

record verify_body =
  emailCode :: "string option"
  smsCode :: "string option"

definition signature_not_found :: response where
  "signature_not_found = json (Error ''Signature not found'') 404"

definition codes_not_found :: response where
  "codes_not_found = json (Error ''Verification codes not found'') 404"

definition codes_expired :: response where
  "codes_expired = json (Error ''Verification codes have expired'') 400"

definition too_many_attempts :: response where
  "too_many_attempts = json (Error ''Too many failed attempts. Please request new codes.'') 400"

definition invalid_codes :: "int \<Rightarrow> response" where
  "invalid_codes attemptsRemaining =
     json (InvalidCodes ''Invalid verification codes''
             (if attemptsRemaining > 0 then attemptsRemaining else 0)) 400"

text \<open>The rows the two statements of the handler select and update:
  \<open>WHERE signature_id = ? AND code_type IN ('email', 'phone')\<close>.\<close>

definition selected :: "nat \<Rightarrow> verification_code \<Rightarrow> bool" where
  "selected i c = (signature_id c = i \<and> (code_type c = ''email'' \<or> code_type c = ''phone''))"

definition increment_attempts :: "nat \<Rightarrow> database \<Rightarrow> database" where
  "increment_attempts i d =
     d\<lparr>verification_codes :=
         map (\<lambda>c. if selected i c then c\<lparr>attempts := attempts c + 1\<rparr> else c)
           (verification_codes d)\<rparr>"

definition mark_verified :: "int \<Rightarrow> nat \<Rightarrow> database \<Rightarrow> database" where
  "mark_verified now i d =
     d\<lparr>verification_codes :=
         map (\<lambda>c. if selected i c then c\<lparr>verified_at := Some now\<rparr> else c)
           (verification_codes d),
       public_signatures :=
         map (\<lambda>r. if sig_id r = i
                   then r\<lparr>email_verified := True, phone_verified := True,
                          verification_completed_at := Some now\<rparr>
                   else r)
           (public_signatures d)\<rparr>"

text \<open>The check of the two code records, from the expiry test on.\<close>

definition check_codes ::
  "int \<Rightarrow> nat \<Rightarrow> string \<Rightarrow> string \<Rightarrow> verification_code \<Rightarrow> verification_code \<Rightarrow> database \<Rightarrow>
   response \<times> database" where
  "check_codes now i emailCodeHash smsCodeHash emailVerification phoneVerification d =
     (if expires_at emailVerification < now \<or> expires_at phoneVerification < now
      then (codes_expired, d)
      else if attempts emailVerification \<ge> 3 \<or> attempts phoneVerification \<ge> 3
      then (too_many_attempts, d)
      else
        let emailValid = (code_hash emailVerification = emailCodeHash);
            phoneValid = (code_hash phoneVerification = smsCodeHash)
        in if \<not> emailValid \<or> \<not> phoneValid
           then (invalid_codes (min (3 - (attempts emailVerification + 1))
                                    (3 - (attempts phoneVerification + 1))),
                 increment_attempts i d)
           else (json_ok (Message ''Signature verified successfully''), mark_verified now i d))"

text \<open>The two code records of a signature: the query has to return exactly two rows, one of
  type \<open>email\<close> and one of type \<open>phone\<close>; otherwise the handler answers 404.\<close>

definition code_records :: "nat \<Rightarrow> database \<Rightarrow> (verification_code \<times> verification_code) option" where
  "code_records i d =
     (let results = filter (selected i) (verification_codes d)
      in if length results \<noteq> 2 then None
         else
           (case (find (\<lambda>c. code_type c = ''email'') results,
                  find (\<lambda>c. code_type c = ''phone'') results) of
              (Some emailVerification, Some phoneVerification) \<Rightarrow>
                Some (emailVerification, phoneVerification)
            | _ \<Rightarrow> None))"

text \<open>\<open>app.post('/api/signatures/:id/verify')\<close>: \<open>i\<close> is the row the path parameter denotes,
  \<open>now\<close> the time of the request.\<close>

definition post_verify :: "int \<Rightarrow> nat \<Rightarrow> verify_body option \<Rightarrow> database \<Rightarrow> response \<times> database" where
  "post_verify now i parsed d =
     (case parsed of
        None \<Rightarrow> (internal_server_error, d)
      | Some b \<Rightarrow>
          if falsy (emailCode b) \<or> falsy (smsCode b)
          then (json (Error ''Missing verification codes'') 400, d)
          else
            (case find (\<lambda>r. sig_id r = i) (public_signatures d) of
               None \<Rightarrow> (signature_not_found, d)
             | Some sg \<Rightarrow>
                 if email_verified sg \<and> phone_verified sg
                 then (json (Error ''Signature already verified'') 400, d)
                 else
                   let emailCodeHash = hashCode (str (emailCode b));
                       smsCodeHash = hashCode (str (smsCode b))
                   in (case code_records i d of
                         None \<Rightarrow> (codes_not_found, d)
                       | Some (emailVerification, phoneVerification) \<Rightarrow>
                           if verified_at emailVerification \<noteq> None \<and>
                              verified_at phoneVerification \<noteq> None
                           then (json (Error ''Already verified'') 400, d)
                           else check_codes now i emailCodeHash smsCodeHash
                                  emailVerification phoneVerification d)))"

text \<open>A signature with its two code records, open for a verification attempt at time
  \<open>now\<close>: every check before the attempt limit passes.\<close>

definition open_for_attempt ::
  "int \<Rightarrow> nat \<Rightarrow> database \<Rightarrow> verification_code \<Rightarrow> verification_code \<Rightarrow> bool" where
  "open_for_attempt now i d ev pv =
     ((case find (\<lambda>r. sig_id r = i) (public_signatures d) of
         None \<Rightarrow> False
       | Some sg \<Rightarrow> \<not> (email_verified sg \<and> phone_verified sg)) \<and>
      code_records i d = Some (ev, pv) \<and>
      \<not> (verified_at ev \<noteq> None \<and> verified_at pv \<noteq> None) \<and>
      now \<le> expires_at ev \<and> now \<le> expires_at pv)"

text \<open>The request carries both codes; the submitted codes are the ones the two records
  store.\<close>

definition has_codes :: "verify_body \<Rightarrow> bool" where
  "has_codes b = (\<not> falsy (emailCode b) \<and> \<not> falsy (smsCode b))"

definition codes_match :: "verification_code \<Rightarrow> verification_code \<Rightarrow> verify_body \<Rightarrow> bool" where
  "codes_match ev pv b =
     (code_hash ev = hashCode (str (emailCode b)) \<and> code_hash pv = hashCode (str (smsCode b)))"

text \<open>A run of verification attempts on one signature: the responses, and the store at the
  end.\<close>

fun attempts_run ::
  "nat \<Rightarrow> (int \<times> verify_body) list \<Rightarrow> database \<Rightarrow> response list \<times> database" where
  "attempts_run i [] d = ([], d)"
| "attempts_run i ((now, b) # rest) d =
     (case post_verify now i (Some b) d of
        (r, d') \<Rightarrow> (case attempts_run i rest d' of (rs, d'') \<Rightarrow> (r # rs, d'')))"

section \<open>Counting\<close>

text \<open>\<open>app.get('/api/signatures/count')\<close>.\<close>

definition publicCount :: "database \<Rightarrow> nat" where
  "publicCount d =
     length (filter (\<lambda>r. email_verified r \<and> phone_verified r) (public_signatures d))"

definition initialCount :: "database \<Rightarrow> nat" where
  "initialCount d = length (initial_signatories d)"

definition get_signatures_count :: "database \<Rightarrow> response" where
  "get_signatures_count d = json_ok (Count (publicCount d + initialCount d))"

section \<open>Example data\<close>

definition empty_database :: database where
  "empty_database =
     \<lparr>public_signatures = [], public_signatures_seq = 0,
      verification_codes = [], verification_codes_seq = 0, initial_signatories = []\<rparr>"

definition initial_state :: state where
  "initial_state = \<lparr>rate_limiter = (\<lambda>_. Map.empty), db = empty_database\<rparr>"

text \<open>An environment in which both dispatches succeed.\<close>

definition delivering :: env where
  "delivering =
     \<lparr>limiter_now = 1000, expiry_now = 1001,
      generated_emailCode = ''123456'', generated_smsCode = ''654321'',
      sendEmailVerification = None, sendSmsVerification = None, sms_rejects_first = False\<rparr>"

definition sns_error :: js_error where
  "sns_error = \<lparr>error_name = ''Error'', error_message = ''SNS API error: 500 - down''\<rparr>"

text \<open>An environment in which the e-mail is sent and the SMS dispatch fails.\<close>

definition sms_failing :: env where
  "sms_failing = delivering\<lparr>sendSmsVerification := Some sns_error\<rparr>"

definition submission :: "string \<Rightarrow> string \<Rightarrow> request" where
  "submission em mo =
     \<lparr>cf_connecting_ip = Some ''203.0.113.7'',
      json_body = Some \<lparr>name = Some ''Jane Doe'', email = Some em, mobile = Some mo,
                        position = None, institution = None, address = None\<rparr>\<rparr>"

text \<open>The store after Jane's submission has been accepted, as the handler leaves it.\<close>

definition jane_row :: signature where
  "jane_row =
     \<lparr>sig_id = 1, sig_name = ''Jane Doe'',
      email_hash = hashString ''jane@example.com'', phone_hash = hashString ''0412345678'',
      sig_position = None, sig_institution = None, sig_address = None,
      email_verified = False, phone_verified = False, verification_completed_at = None\<rparr>"

definition jane_email_code :: verification_code where
  "jane_email_code =
     \<lparr>code_id = 1, signature_id = 1, code_type = ''email'', code_hash = hashCode ''123456'',
      expires_at = 601001, attempts = 0, verified_at = None\<rparr>"

definition jane_phone_code :: verification_code where
  "jane_phone_code =
     \<lparr>code_id = 2, signature_id = 1, code_type = ''phone'', code_hash = hashCode ''654321'',
      expires_at = 601001, attempts = 0, verified_at = None\<rparr>"

definition jane_database :: database where
  "jane_database =
     \<lparr>public_signatures = [jane_row], public_signatures_seq = 1,
      verification_codes = [jane_email_code, jane_phone_code], verification_codes_seq = 2,
      initial_signatories = []\<rparr>"

definition jane_state :: state where
  "jane_state =
     \<lparr>rate_limiter = (\<lambda>_. Map.empty)
        (''203.0.113.7'' := [''203.0.113.7'' \<mapsto> \<lparr>count = 1, resetTime = 61000\<rparr>]),
      db = jane_database\<rparr>"

text \<open>The same store when the client has used up its five requests of the window.\<close>

definition exhausted_state :: state where
  "exhausted_state =
     \<lparr>rate_limiter = (\<lambda>_. Map.empty)
        (''203.0.113.7'' := [''203.0.113.7'' \<mapsto> \<lparr>count = 5, resetTime = 61000\<rparr>]),
      db = jane_database\<rparr>"

definition founders_database :: database where
  "founders_database =
     empty_database\<lparr>initial_signatories :=
       [\<lparr>signatory_id = 1, first_name = ''Ada'', last_name = ''Lovelace''\<rparr>]\<rparr>"

definition codes :: "string \<Rightarrow> string \<Rightarrow> verify_body" where
  "codes ec sc = \<lparr>emailCode = Some ec, smsCode = Some sc\<rparr>"

section \<open>The digest, evaluated\<close>

text \<open>
  The recursion over the blocks is unfolded on demand only. With the equations below the
  simplifier computes digests of concrete strings; the values are the published SHA-256 digests
  of \<open>abc\<close>, \<open>123456\<close> and \<open>000000\<close>.
\<close>

declare sha_blocks.simps [simp del]

lemma replicate_numeral_Cons: "replicate (numeral k) x = x # replicate (pred_numeral k) x"
  by (simp add: numeral_eq_Suc)

lemmas sha_eval = replicate_numeral_Cons digest_SHA256_def pad_def len_bytes_def compress_def
  K256_def H0_def word_bytes_def bsig0_def bsig1_def ssig0_def ssig1_def Ch_def Maj_def rotr_def
  add32_def next_word_def sha_blocks.simps encode_def utf8_char_def code_unit_def
  padStart2_def toString16_def hex_digit_def

lemma hashString_abc:
  "hashString ''abc'' = ''ba7816bf8f01cfea414140de5dae2223b00361a396177a9cb410ff61f20015ad''"
  by (simp add: hashString_def sha_eval)

lemma hashCode_123456:
  "hashCode ''123456'' = ''8d969eef6ecad3c29a3a629280e686cf0c3f5d5a86aff3ca12020c923adc6c92''"
  by (simp add: hashCode_def sha_eval)

lemma hashCode_000000:
  "hashCode ''000000'' = ''91b4d142823f7d20c5f08df69122de43f35f057a988d9619f6d3138485c9a203''"
  by (simp add: hashCode_def sha_eval)

lemma hex_pad: "padStart2 (toString16 b) = hex_byte b"
  by (simp add: padStart2_def toString16_def hex_byte_def Let_def hex_digit_def)

text \<open>
  Claim C10. For every string the code-hashing function \<open>hashCode\<close> and the identity-hashing
  function \<open>hashString\<close> return the same result, the hexadecimal SHA-256 digest of the UTF-8
  bytes; so a stored code hash equals the \<open>hashCode\<close> of a submitted code exactly when it
  equals its \<open>hashString\<close>.
\<close>

theorem hashCode_is_hashString:
  "hashCode s = hashString s \<and> hashString s = hex_sha256_utf8 s \<and>
   (code_hash r = hashCode s) = (code_hash r = hashString s)"
  by (simp add: hashCode_def hashString_def hex_sha256_utf8_def hex_pad)

theorem hashCode_is_hashString_witness:
  "hashCode ''123456'' = hashString ''123456'' \<and>
   hashString ''123456'' = ''8d969eef6ecad3c29a3a629280e686cf0c3f5d5a86aff3ca12020c923adc6c92''"
  using hashCode_is_hashString [of "''123456''" jane_email_code] hashCode_123456 by simp

section \<open>The rate limiter's window\<close>

lemma fetch_fresh:
  "key \<noteq> [] \<Longrightarrow> no_active_window st key now \<Longrightarrow>
   fetch (Some key) now st =
     (json_ok (RateLimitResult True 4), st(key \<mapsto> \<lparr>count = 1, resetTime = now + 60000\<rparr>))"
  by (auto simp: fetch_def no_active_window_def new_window_def maxRequests_def windowMs_def
      split: option.splits)

lemma fetch_increment:
  "key \<noteq> [] \<Longrightarrow> st key = Some d \<Longrightarrow> now \<le> resetTime d \<Longrightarrow> count d < 5 \<Longrightarrow>
   fetch (Some key) now st =
     (json_ok (RateLimitResult True (4 - count d)),
      st(key \<mapsto> \<lparr>count = count d + 1, resetTime = resetTime d\<rparr>))"
  by (simp add: fetch_def maxRequests_def)

lemma fetch_reject:
  "key \<noteq> [] \<Longrightarrow> st key = Some d \<Longrightarrow> now \<le> resetTime d \<Longrightarrow> 5 \<le> count d \<Longrightarrow>
   fetch (Some key) now st = (json (RateLimitResult False 0) 429, st)"
  by (simp add: fetch_def maxRequests_def)

lemma allowed_simps:
  "allowed (json_ok (RateLimitResult a n)) = a"
  "allowed (json (RateLimitResult a n) s) = a"
  by (simp_all add: allowed_def json_ok_def json_def)

lemma upt_map_head:
  "map f [0..<Suc n] = f 0 # map (\<lambda>i. f (Suc i)) [0..<n]"
  by (simp add: upt_conv_Cons map_Suc_upt [symmetric] del: upt_Suc)

lemma requests_in_window:
  "key \<noteq> [] \<Longrightarrow> st key = Some d \<Longrightarrow> \<forall>t\<in>set ts. t \<le> resetTime d \<Longrightarrow>
   fst (requests key ts st) = map (\<lambda>i. count d + int i < 5) [0..<length ts] \<and>
   (\<exists>d'. snd (requests key ts st) key = Some d' \<and> resetTime d' = resetTime d)"
proof (induction ts arbitrary: st d)
  case Nil
  then show ?case by simp
next
  case (Cons t ts)
  have t: "t \<le> resetTime d" and ts: "\<forall>u\<in>set ts. u \<le> resetTime d"
    using Cons.prems(3) by simp_all
  have len: "length (t # ts) = Suc (length ts)" by simp
  show ?case
  proof (cases "count d < 5")
    case True
    let ?d = "\<lparr>count = count d + 1, resetTime = resetTime d\<rparr>"
    let ?st = "st(key \<mapsto> ?d)"
    have f: "fetch (Some key) t st = (json_ok (RateLimitResult True (4 - count d)), ?st)"
      using Cons.prems(1,2) t True by (rule fetch_increment)
    have ih: "fst (requests key ts ?st) = map (\<lambda>i. count ?d + int i < 5) [0..<length ts] \<and>
       (\<exists>d'. snd (requests key ts ?st) key = Some d' \<and> resetTime d' = resetTime ?d)"
      by (rule Cons.IH) (use Cons.prems(1) ts in simp_all)
    obtain as st'' where r: "requests key ts ?st = (as, st'')"
      by (cases "requests key ts ?st")
    have m: "map (\<lambda>i. count d + int i < 5) [0..<Suc (length ts)] = True # as"
      using True ih r by (simp add: upt_map_head add.assoc del: upt_Suc)
    show ?thesis
      unfolding len m using ih by (simp add: f r allowed_simps)
  next
    case False
    then have c: "5 \<le> count d" by simp
    have f: "fetch (Some key) t st = (json (RateLimitResult False 0) 429, st)"
      using Cons.prems(1,2) t c by (rule fetch_reject)
    have ih: "fst (requests key ts st) = map (\<lambda>i. count d + int i < 5) [0..<length ts] \<and>
       (\<exists>d'. snd (requests key ts st) key = Some d' \<and> resetTime d' = resetTime d)"
      using Cons.prems(1,2) ts by (rule Cons.IH)
    obtain as st'' where r: "requests key ts st = (as, st'')"
      by (cases "requests key ts st")
    have m: "map (\<lambda>i. count d + int i < 5) [0..<Suc (length ts)] = False # as"
      using c ih r by (simp add: upt_map_head del: upt_Suc)
    show ?thesis
      unfolding len m using ih by (simp add: f r allowed_simps)
  qed
qed

lemma requests_from_fresh:
  assumes "key \<noteq> []" "no_active_window st key t1" "\<forall>t\<in>set ts. t \<le> t1 + 60000"
  shows "fst (requests key (t1 # ts) st) = map (\<lambda>i. i < 5) [0..<Suc (length ts)]"
    and "\<exists>d'. snd (requests key (t1 # ts) st) key = Some d' \<and> resetTime d' = t1 + 60000"
proof -
  let ?d = "\<lparr>count = 1, resetTime = t1 + 60000\<rparr>"
  let ?st = "st(key \<mapsto> ?d)"
  have f: "fetch (Some key) t1 st = (json_ok (RateLimitResult True 4), ?st)"
    using assms(1,2) by (rule fetch_fresh)
  have w: "fst (requests key ts ?st) = map (\<lambda>i. count ?d + int i < 5) [0..<length ts] \<and>
       (\<exists>d'. snd (requests key ts ?st) key = Some d' \<and> resetTime d' = resetTime ?d)"
    by (rule requests_in_window) (use assms(1,3) in simp_all)
  obtain as st'' where r: "requests key ts ?st = (as, st'')"
    by (cases "requests key ts ?st")
  have m: "map (\<lambda>i. i < 5) [0..<Suc (length ts)] = True # as"
    using w r by (simp add: upt_map_head del: upt_Suc) 
  show "fst (requests key (t1 # ts) st) = map (\<lambda>i. i < 5) [0..<Suc (length ts)]"
    unfolding m by (simp add: f r allowed_simps)
  show "\<exists>d'. snd (requests key (t1 # ts) st) key = Some d' \<and> resetTime d' = t1 + 60000"
    using w by (simp add: f r)
qed

text \<open>
  Claim C1. For every key the limiter accepts (a non-empty one): a request that finds no record,
  or arrives after \<open>resetTime\<close>, stores a fresh window with \<open>count = 1\<close> and
  \<open>resetTime = now + 60000\<close> and is allowed; a request inside an active window with
  \<open>count < 5\<close> increments \<open>count\<close> and is allowed; a request inside an active window with
  \<open>count \<ge> 5\<close> is rejected with status 429 and the storage stays as it is. Hence, when the
  request at \<open>t1\<close> opens a window, of the requests that follow up to \<open>t1 + 60000\<close> exactly the
  first four are allowed (five with the opening one, the sixth is rejected), and a request
  after \<open>t1 + 60000\<close>, such as one 61 seconds after the first, is allowed and opens a fresh
  window.
\<close>

theorem rate_limiter_fixed_window:
  assumes "key \<noteq> []"
  shows
   "(no_active_window st key now \<longrightarrow>
       fetch (Some key) now st =
         (json_ok (RateLimitResult True 4),
          st(key \<mapsto> \<lparr>count = 1, resetTime = now + 60000\<rparr>))) \<and>
    (st key = Some d \<and> now \<le> resetTime d \<and> count d < 5 \<longrightarrow>
       fetch (Some key) now st =
         (json_ok (RateLimitResult True (4 - count d)),
          st(key \<mapsto> \<lparr>count = count d + 1, resetTime = resetTime d\<rparr>))) \<and>
    (st key = Some d \<and> now \<le> resetTime d \<and> 5 \<le> count d \<longrightarrow>
       fetch (Some key) now st = (json (RateLimitResult False 0) 429, st)) \<and>
    (no_active_window st key t1 \<and> (\<forall>t\<in>set ts. t \<le> t1 + 60000) \<longrightarrow>
       fst (requests key (t1 # ts) st) = map (\<lambda>i. i < 5) [0..<Suc (length ts)]) \<and>
    (no_active_window st key t1 \<and> (\<forall>t\<in>set ts. t \<le> t1 + 60000) \<and> t1 + 60000 < t6 \<longrightarrow>
       (case fetch (Some key) t6 (snd (requests key (t1 # ts) st)) of
          (r, st') \<Rightarrow> allowed r \<and> st' key = Some \<lparr>count = 1, resetTime = t6 + 60000\<rparr>))"
proof (intro conjI impI)
  assume "no_active_window st key now"
  with assms show "fetch (Some key) now st =
         (json_ok (RateLimitResult True 4),
          st(key \<mapsto> \<lparr>count = 1, resetTime = now + 60000\<rparr>))"
    by (rule fetch_fresh)
next
  assume "st key = Some d \<and> now \<le> resetTime d \<and> count d < 5"
  with assms show "fetch (Some key) now st =
         (json_ok (RateLimitResult True (4 - count d)),
          st(key \<mapsto> \<lparr>count = count d + 1, resetTime = resetTime d\<rparr>))"
    by (simp add: fetch_increment)
next
  assume "st key = Some d \<and> now \<le> resetTime d \<and> 5 \<le> count d"
  with assms show "fetch (Some key) now st = (json (RateLimitResult False 0) 429, st)"
    by (simp add: fetch_reject)
next
  assume "no_active_window st key t1 \<and> (\<forall>t\<in>set ts. t \<le> t1 + 60000)"
  with assms show "fst (requests key (t1 # ts) st) = map (\<lambda>i. i < 5) [0..<Suc (length ts)]"
    using requests_from_fresh(1) [of key st t1 ts] by blast
next
  assume a: "no_active_window st key t1 \<and> (\<forall>t\<in>set ts. t \<le> t1 + 60000) \<and> t1 + 60000 < t6"
  let ?st = "snd (requests key (t1 # ts) st)"
  obtain d' where d': "?st key = Some d'" "resetTime d' = t1 + 60000"
    using requests_from_fresh(2) [of key st t1 ts] assms a by blast
  have "no_active_window ?st key t6"
    using d' a by (simp add: no_active_window_def)
  with assms have "fetch (Some key) t6 ?st =
      (json_ok (RateLimitResult True 4), ?st(key \<mapsto> \<lparr>count = 1, resetTime = t6 + 60000\<rparr>))"
    by (rule fetch_fresh)
  then show "case fetch (Some key) t6 ?st of
          (r, st') \<Rightarrow> allowed r \<and> st' key = Some \<lparr>count = 1, resetTime = t6 + 60000\<rparr>"
    by (simp add: allowed_simps)
qed

theorem rate_limiter_fixed_window_witness:
  "fst (requests ''203.0.113.7'' [1000, 2000, 3000, 4000, 5000, 61000] Map.empty) =
     [True, True, True, True, True, False] \<and>
   (case fetch (Some ''203.0.113.7'') 62000
           (snd (requests ''203.0.113.7'' [1000, 2000, 3000, 4000, 5000, 61000] Map.empty)) of
      (r, st') \<Rightarrow> allowed r \<and> st' ''203.0.113.7'' = Some \<lparr>count = 1, resetTime = 122000\<rparr>) \<and>
   fetch (Some ''203.0.113.7'') 1000 Map.empty =
     (json_ok (RateLimitResult True 4),
      [''203.0.113.7'' \<mapsto> \<lparr>count = 1, resetTime = 61000\<rparr>]) \<and>
   fetch (Some ''203.0.113.7'') 2000 [''203.0.113.7'' \<mapsto> \<lparr>count = 4, resetTime = 61000\<rparr>] =
     (json_ok (RateLimitResult True 0),
      [''203.0.113.7'' \<mapsto> \<lparr>count = 5, resetTime = 61000\<rparr>]) \<and>
   fetch (Some ''203.0.113.7'') 61000 [''203.0.113.7'' \<mapsto> \<lparr>count = 5, resetTime = 61000\<rparr>] =
     (json (RateLimitResult False 0) 429,
      [''203.0.113.7'' \<mapsto> \<lparr>count = 5, resetTime = 61000\<rparr>])"
proof -
  have k: "''203.0.113.7'' \<noteq> []"
    by simp
  have n: "no_active_window Map.empty ''203.0.113.7'' 1000"
    by (simp add: no_active_window_def)
  have a: "fst (requests ''203.0.113.7'' [1000, 2000, 3000, 4000, 5000, 61000] Map.empty) =
     [True, True, True, True, True, False] \<and>
   (case fetch (Some ''203.0.113.7'') 62000
           (snd (requests ''203.0.113.7'' [1000, 2000, 3000, 4000, 5000, 61000] Map.empty)) of
      (r, st') \<Rightarrow> allowed r \<and> st' ''203.0.113.7'' = Some \<lparr>count = 1, resetTime = 122000\<rparr>) \<and>
   fetch (Some ''203.0.113.7'') 1000 Map.empty =
     (json_ok (RateLimitResult True 4),
      [''203.0.113.7'' \<mapsto> \<lparr>count = 1, resetTime = 61000\<rparr>])"
    using rate_limiter_fixed_window [OF k, of Map.empty 1000 undefined 1000
        "[2000, 3000, 4000, 5000, 61000]" 62000] n
    by (simp add: upt_conv_Cons del: requests.simps)
  have b: "fetch (Some ''203.0.113.7'') 2000
       [''203.0.113.7'' \<mapsto> \<lparr>count = 4, resetTime = 61000\<rparr>] =
     (json_ok (RateLimitResult True 0),
      [''203.0.113.7'' \<mapsto> \<lparr>count = 5, resetTime = 61000\<rparr>])"
    using rate_limiter_fixed_window [OF k,
        of "[''203.0.113.7'' \<mapsto> \<lparr>count = 4, resetTime = 61000\<rparr>]" 2000
           "\<lparr>count = 4, resetTime = 61000\<rparr>" 0 "[]" 0]
    by simp
  have c: "fetch (Some ''203.0.113.7'') 61000
       [''203.0.113.7'' \<mapsto> \<lparr>count = 5, resetTime = 61000\<rparr>] =
     (json (RateLimitResult False 0) 429,
      [''203.0.113.7'' \<mapsto> \<lparr>count = 5, resetTime = 61000\<rparr>])"
    using rate_limiter_fixed_window [OF k,
        of "[''203.0.113.7'' \<mapsto> \<lparr>count = 5, resetTime = 61000\<rparr>]" 61000
           "\<lparr>count = 5, resetTime = 61000\<rparr>" 0 "[]" 0]
    by simp
  show ?thesis
    using a b c by (simp only: simp_thms)
qed

section \<open>Signature submission\<close>

subsection \<open>The handler by cases\<close>

lemma client_ip_nonempty: "client_ip req \<noteq> []"
  by (simp add: client_ip_def falsy_def str_def split: option.splits)

lemma fetch_body:
  "key \<noteq> [] \<Longrightarrow> \<exists>n. body (fst (fetch (Some key) now st)) = RateLimitResult (allowed (fst (fetch (Some key) now st))) n"
  by (simp add: fetch_def new_window_def allowed_def json_def json_ok_def split: option.splits)

lemma rateLimitResponse_body:
  "\<exists>n. body (rateLimitResponse e req s) = RateLimitResult (allowed (rateLimitResponse e req s)) n"
  unfolding rateLimitResponse_def by (rule fetch_body) (rule client_ip_nonempty)

lemma db_after_rate_limit: "db (after_rate_limit e req s) = db s"
  by (simp add: after_rate_limit_def)

lemma post_signatures_cases:
  assumes "json_body req = Some b"
  shows "post_signatures e req s =
     (if \<not> allowed (rateLimitResponse e req s) then (too_many_requests, after_rate_limit e req s)
      else case validate_input b of
             Some r \<Rightarrow> (r, after_rate_limit e req s)
           | None \<Rightarrow>
               if existingSignature b (db s) then (already_used, after_rate_limit e req s)
               else case send_all e of
                      Some x \<Rightarrow>
                        (delivery_failed x,
                         (after_rate_limit e req s)
                           \<lparr>db := delete_signature (fst (store_pending e b (db s)))
                                    (snd (store_pending e b (db s)))\<rparr>)
                    | None \<Rightarrow>
                        (codes_sent (fst (store_pending e b (db s))),
                         (after_rate_limit e req s)\<lparr>db := snd (store_pending e b (db s))\<rparr>))"
proof -
  obtain n where "body (rateLimitResponse e req s) = RateLimitResult (allowed (rateLimitResponse e req s)) n"
    using rateLimitResponse_body by blast
  then show ?thesis
    using assms
    by (simp add: post_signatures_def db_after_rate_limit Let_def split: option.splits prod.splits)
qed

lemma response_status:
  "status too_many_requests = 429" "status missing_required_fields = 400"
  "status invalid_email_format = 400" "status invalid_mobile = 400"
  "status already_used = 409" "status (delivery_failed x) = 500"
  "status (codes_sent i) = 200" "status internal_server_error = 500"
  by (simp_all add: too_many_requests_def missing_required_fields_def invalid_email_format_def
      invalid_mobile_def already_used_def delivery_failed_def codes_sent_def
      internal_server_error_def json_def json_ok_def)

lemma response_distinct:
  "already_used \<noteq> invalid_mobile" "delivery_failed x \<noteq> invalid_mobile"
  "codes_sent i \<noteq> invalid_mobile"
  by (simp_all add: already_used_def invalid_mobile_def delivery_failed_def codes_sent_def
      json_def json_ok_def)

lemma validate_input_status: "validate_input b = Some r \<Longrightarrow> status r = 400"
  by (auto simp: validate_input_def response_status split: if_splits)

lemma fst_store_pending: "fst (store_pending e b d) = next_signature_id d"
  by (simp add: store_pending_def insert_signature_def Let_def split: prod.splits)

lemma startsWith_04: "startsWith s ''04'' = (take 2 s = ''04'')"
  by (simp add: startsWith_def numeral_2_eq_2)

subsection \<open>The store after a submission\<close>

lemma public_signatures_insert_code:
  "public_signatures (insert_code i ty h x d) = public_signatures d"
  by (simp add: insert_code_def Let_def)

lemma public_signatures_store_pending:
  "public_signatures (snd (store_pending e b d)) =
     public_signatures d @ [(new_signature b)\<lparr>sig_id := next_signature_id d\<rparr>]"
  by (simp add: store_pending_def insert_signature_def Let_def public_signatures_insert_code)

lemma unique_store_pending:
  assumes "unique_identities d" "\<not> existingSignature b d"
  shows "unique_identities (snd (store_pending e b d))"
proof -
  have "emailHash b \<notin> email_hash ` set (public_signatures d)"
    and "phoneHash b \<notin> phone_hash ` set (public_signatures d)"
    using assms(2) by (auto simp: existingSignature_def list_ex_iff)
  then show ?thesis
    using assms(1)
    by (simp add: unique_identities_def public_signatures_store_pending new_signature_def)
qed

lemma unique_delete_signature:
  "unique_identities d \<Longrightarrow> unique_identities (delete_signature i d)"
  by (simp add: unique_identities_def delete_signature_def distinct_map_filter)

lemma fold_max_ge: "a \<le> fold max xs (a::nat) \<and> (\<forall>x\<in>set xs. x \<le> fold max xs a)"
proof (induction xs arbitrary: a)
  case Nil
  show ?case by simp
next
  case (Cons y ys)
  have "max y a \<le> fold max ys (max y a)" and "\<forall>x\<in>set ys. x \<le> fold max ys (max y a)"
    using Cons.IH [of "max y a"] by simp_all
  then show ?case by auto
qed

lemma next_signature_id_fresh:
  "r \<in> set (public_signatures d) \<Longrightarrow> sig_id r < next_signature_id d"
proof -
  assume "r \<in> set (public_signatures d)"
  then have "sig_id r \<in> set (map sig_id (public_signatures d))" by simp
  then have "sig_id r \<le> fold max (map sig_id (public_signatures d)) 0"
    using fold_max_ge [of 0 "map sig_id (public_signatures d)"] by blast
  then show ?thesis by (simp add: next_signature_id_def)
qed

lemma next_signature_id_unused:
  "r \<in> set (public_signatures d) \<Longrightarrow> sig_id r \<noteq> next_signature_id d"
  using next_signature_id_fresh [of r d] by simp

lemma verification_codes_store_pending:
  "\<exists>j k. verification_codes (snd (store_pending e b d)) =
     verification_codes d @
       [\<lparr>code_id = j, signature_id = next_signature_id d, code_type = ''email'',
         code_hash = hashCode (generated_emailCode e), expires_at = expiry_now e + 600000,
         attempts = 0, verified_at = None\<rparr>,
        \<lparr>code_id = k, signature_id = next_signature_id d, code_type = ''phone'',
         code_hash = hashCode (generated_smsCode e), expires_at = expiry_now e + 600000,
         attempts = 0, verified_at = None\<rparr>]"
  by (simp add: store_pending_def insert_signature_def insert_code_def getCodeExpiryTime_def Let_def)

lemma rollback_signatures:
  "public_signatures (delete_signature (next_signature_id d) (snd (store_pending e b d))) =
     public_signatures d"
proof -
  have "filter (\<lambda>r. sig_id r \<noteq> next_signature_id d) (public_signatures d) = public_signatures d"
    by (simp add: filter_id_conv next_signature_id_unused)
  then show ?thesis
    by (simp add: delete_signature_def public_signatures_store_pending)
qed

lemma rollback_codes:
  "verification_codes (delete_signature (next_signature_id d) (snd (store_pending e b d))) =
     filter (\<lambda>c. signature_id c \<noteq> next_signature_id d) (verification_codes d)"
proof -
  obtain j k where "verification_codes (snd (store_pending e b d)) =
     verification_codes d @
       [\<lparr>code_id = j, signature_id = next_signature_id d, code_type = ''email'',
         code_hash = hashCode (generated_emailCode e), expires_at = expiry_now e + 600000,
         attempts = 0, verified_at = None\<rparr>,
        \<lparr>code_id = k, signature_id = next_signature_id d, code_type = ''phone'',
         code_hash = hashCode (generated_smsCode e), expires_at = expiry_now e + 600000,
         attempts = 0, verified_at = None\<rparr>]"
    using verification_codes_store_pending by blast
  then show ?thesis by (simp add: delete_signature_def)
qed

lemma send_all_fails:
  "sendEmailVerification e \<noteq> None \<or> sendSmsVerification e \<noteq> None \<Longrightarrow> \<exists>x. send_all e = Some x"
  by (auto simp: send_all_def split: option.splits)

lemma success_only_when_stored:
  assumes "json_body req = Some b" and "status (fst (post_signatures e req s)) = 200"
  shows "db (snd (post_signatures e req s)) = snd (store_pending e b (db s))"
proof -
  have 1: "allowed (rateLimitResponse e req s)"
  proof (rule ccontr)
    assume "\<not> allowed (rateLimitResponse e req s)"
    then have "status (fst (post_signatures e req s)) = 429"
      by (simp add: post_signatures_cases [OF assms(1)] response_status)
    with assms(2) show False by simp
  qed
  have 2: "validate_input b = None"
  proof (cases "validate_input b")
    case None
    then show ?thesis .
  next
    case (Some r)
    then have "status (fst (post_signatures e req s)) = 400"
      using 1 validate_input_status [of b r] by (simp add: post_signatures_cases [OF assms(1)])
    with assms(2) show ?thesis by simp
  qed
  have 3: "\<not> existingSignature b (db s)"
  proof
    assume "existingSignature b (db s)"
    then have "status (fst (post_signatures e req s)) = 409"
      using 1 2 by (simp add: post_signatures_cases [OF assms(1)] response_status)
    with assms(2) show False by simp
  qed
  have 4: "send_all e = None"
  proof (cases "send_all e")
    case None
    then show ?thesis .
  next
    case (Some x)
    then have "status (fst (post_signatures e req s)) = 500"
      using 1 2 3 by (simp add: post_signatures_cases [OF assms(1)] response_status)
    with assms(2) show ?thesis by simp
  qed
  show ?thesis
    using 1 2 3 4 by (simp add: post_signatures_cases [OF assms(1)])
qed

lemma success_stores_hashes:
  assumes "json_body req = Some b" and "status (fst (post_signatures e req s)) = 200"
  shows "\<exists>r\<in>set (public_signatures (db (snd (post_signatures e req s)))).
           email_hash r = emailHash b \<and> phone_hash r = phoneHash b"
  by (simp add: success_only_when_stored [OF assms] public_signatures_store_pending
      new_signature_def)

subsection \<open>The e-mail pattern\<close>

text \<open>
  The executable test agrees with the regular expression read as a language: a local part, the
  sign \<open>@\<close>, a domain part, a dot and a last part, each non-empty and free of white space
  and of \<open>@\<close>. In particular no address with white space passes.
\<close>

lemma at_sign_not_space: "\<not> is_space CHR ''@''"
  by code_simp

lemma space_is_space: "is_space CHR '' ''"
  by code_simp

lemma dot_is_local: "local_char CHR ''.''"
  by code_simp

lemma emailRegex_test_iff:
  "emailRegex_test s \<longleftrightarrow>
     (\<exists>a b c. s = a @ ''@'' @ b @ ''.'' @ c \<and> a \<noteq> [] \<and> b \<noteq> [] \<and> c \<noteq> [] \<and>
        list_all local_char a \<and> list_all local_char b \<and> list_all local_char c)"
proof
  assume m: "emailRegex_test s"
  define a where "a = takeWhile (\<lambda>c. c \<noteq> CHR ''@'') s"
  define r where "r = dropWhile (\<lambda>c. c \<noteq> CHR ''@'') s"
  have a: "a \<noteq> []" "list_all local_char a" and r: "r \<noteq> []"
    and t: "list_all local_char (tl r)" and dot: "CHR ''.'' \<in> set (butlast (tl (tl r)))"
    using m unfolding emailRegex_test_def Let_def a_def r_def by blast+
  have s: "s = a @ r"
    unfolding a_def r_def by simp
  have "\<not> (hd r \<noteq> CHR ''@'')"
    using r unfolding r_def by (rule hd_dropWhile)
  then obtain d where d: "r = CHR ''@'' # d"
    using r by (cases r) auto
  obtain u v where uv: "butlast (tl d) = u @ CHR ''.'' # v"
    using dot d split_list [of "CHR ''.''" "butlast (tl d)"] by auto
  then have ne: "tl d \<noteq> []"
    by auto
  then obtain x d' where x: "d = x # d'" and d': "d' \<noteq> []"
    by (cases d) auto
  have "d' = butlast d' @ [last d']"
    using d' by simp
  then have dd: "d = (x # u) @ ''.'' @ (v @ [last d'])"
    using uv x by simp
  have "s = a @ ''@'' @ (x # u) @ ''.'' @ (v @ [last d'])"
    using s d dd by simp
  moreover have "list_all local_char (x # u)" "list_all local_char (v @ [last d'])"
    using t d dd by (simp_all add: list_all_iff)
  ultimately show "\<exists>a b c. s = a @ ''@'' @ b @ ''.'' @ c \<and> a \<noteq> [] \<and> b \<noteq> [] \<and> c \<noteq> [] \<and>
        list_all local_char a \<and> list_all local_char b \<and> list_all local_char c"
    using a by blast
next
  assume "\<exists>a b c. s = a @ ''@'' @ b @ ''.'' @ c \<and> a \<noteq> [] \<and> b \<noteq> [] \<and> c \<noteq> [] \<and>
        list_all local_char a \<and> list_all local_char b \<and> list_all local_char c"
  then obtain a b c where s: "s = a @ CHR ''@'' # b @ CHR ''.'' # c"
    and ne: "a \<noteq> []" "b \<noteq> []" "c \<noteq> []"
    and l: "list_all local_char a" "list_all local_char b" "list_all local_char c"
    by auto
  have na: "\<forall>x\<in>set a. x \<noteq> CHR ''@''"
    using l(1) by (auto simp: list_all_iff local_char_def)
  have tw: "takeWhile (\<lambda>c. c \<noteq> CHR ''@'') s = a"
    unfolding s using na by (simp add: takeWhile_append2)
  have dw: "dropWhile (\<lambda>c. c \<noteq> CHR ''@'') s = CHR ''@'' # b @ CHR ''.'' # c"
    unfolding s using na by (simp add: dropWhile_append2)
  have bl: "butlast (tl b @ CHR ''.'' # c) = tl b @ CHR ''.'' # butlast c"
    using ne(3) by (simp add: butlast_append)
  show "emailRegex_test s"
    unfolding emailRegex_test_def Let_def tw dw
    using ne l dot_is_local bl by (auto simp: list_all_iff)
qed

lemma emailRegex_no_space:
  assumes "emailRegex_test s"
  shows "\<forall>c\<in>set s. \<not> is_space c"
proof
  fix c
  assume c: "c \<in> set s"
  define a where "a = takeWhile (\<lambda>c. c \<noteq> CHR ''@'') s"
  define r where "r = dropWhile (\<lambda>c. c \<noteq> CHR ''@'') s"
  have a: "list_all local_char a" and r: "r \<noteq> []" and t: "list_all local_char (tl r)"
    using assms unfolding emailRegex_test_def Let_def a_def r_def by blast+
  have s: "s = a @ r"
    unfolding a_def r_def by simp
  have "\<not> (hd r \<noteq> CHR ''@'')"
    using r unfolding r_def by (rule hd_dropWhile)
  then have h: "hd r = CHR ''@''" by blast
  obtain x xs where x: "r = x # xs"
    using r by (cases r) blast+
  have "c \<in> set a \<or> c = x \<or> c \<in> set xs"
    using c unfolding s x by auto
  then show "\<not> is_space c"
  proof (elim disjE)
    assume "c \<in> set a"
    with a show ?thesis unfolding list_all_iff local_char_def by blast
  next
    assume "c = x"
    with h x show ?thesis by (simp add: at_sign_not_space)
  next
    assume "c \<in> set xs"
    with t x show ?thesis unfolding list_all_iff local_char_def by simp
  qed
qed

subsection \<open>Concrete requests\<close>

lemma lower_jane:
  "toLowerCase ''Jane@Example.com'' = ''jane@example.com''"
  "toLowerCase ''jane@example.com'' = ''jane@example.com''"
  by code_simp+

lemma regex_jane:
  "emailRegex_test ''Jane@Example.com''"
  "emailRegex_test ''jane@example.com''"
  "\<not> emailRegex_test ''jane@example.com ''"
  by code_simp+

lemma digits_mobile:
  "strip_non_digits ''0412345678'' = ''0412345678''"
  "strip_non_digits ''0312345678'' = ''0312345678''"
  by code_simp+

lemmas submission_simps =
  submission_def falsy_def str_def or_null_def cleanMobile_def emailHash_def phoneHash_def
  lower_jane regex_jane digits_mobile validate_input_def startsWith_def

lemma body_examples:
  "json_body (submission em mo) =
     Some \<lparr>name = Some ''Jane Doe'', email = Some em, mobile = Some mo,
           position = None, institution = None, address = None\<rparr>"
  by (simp add: submission_def)

lemma validate_examples:
  "validate_input \<lparr>name = Some ''Jane Doe'', email = Some ''Jane@Example.com'',
     mobile = Some ''0412345678'', position = None, institution = None, address = None\<rparr> = None"
  "validate_input \<lparr>name = Some ''Jane Doe'', email = Some ''jane@example.com'',
     mobile = Some ''0412345678'', position = None, institution = None, address = None\<rparr> = None"
  "validate_input \<lparr>name = Some ''Jane Doe'', email = Some ''jane@example.com '',
     mobile = Some ''0412345678'', position = None, institution = None, address = None\<rparr> =
     Some invalid_email_format"
  "validate_input \<lparr>name = Some ''Jane Doe'', email = Some ''jane@example.com'',
     mobile = Some ''0312345678'', position = None, institution = None, address = None\<rparr> =
     Some invalid_mobile"
  by (simp_all add: submission_simps)

lemma first_request_allowed:
  "allowed (rateLimitResponse delivering (submission em mo) initial_state)"
  "allowed (rateLimitResponse sms_failing (submission em mo) initial_state)"
  by (simp_all add: rateLimitResponse_def client_ip_def submission_def falsy_def str_def
      initial_state_def fetch_def new_window_def allowed_def json_ok_def delivering_def
      sms_failing_def)

lemma store_pending_jane:
  "store_pending delivering
     \<lparr>name = Some ''Jane Doe'', email = Some ''Jane@Example.com'',
      mobile = Some ''0412345678'', position = None, institution = None, address = None\<rparr>
     empty_database = (1, jane_database)"
  by (simp add: store_pending_def insert_signature_def insert_code_def next_signature_id_def
      next_code_id_def new_signature_def getCodeExpiryTime_def empty_database_def delivering_def
      jane_database_def jane_row_def jane_email_code_def jane_phone_code_def submission_simps Let_def)

lemma jane_accepted:
  "post_signatures delivering (submission ''Jane@Example.com'' ''0412345678'') initial_state =
     (codes_sent 1, jane_state)"
proof -
  have b: "json_body (submission ''Jane@Example.com'' ''0412345678'') =
     Some \<lparr>name = Some ''Jane Doe'', email = Some ''Jane@Example.com'',
           mobile = Some ''0412345678'', position = None, institution = None, address = None\<rparr>"
    by (simp add: submission_def)
  have d: "db initial_state = empty_database"
    by (simp add: initial_state_def)
  have a: "after_rate_limit delivering (submission ''Jane@Example.com'' ''0412345678'')
      initial_state\<lparr>db := jane_database\<rparr> = jane_state"
    by (simp add: after_rate_limit_def client_ip_def submission_def falsy_def str_def
      initial_state_def fetch_def new_window_def delivering_def jane_state_def windowMs_def)
  have x: "\<not> existingSignature \<lparr>name = Some ''Jane Doe'', email = Some ''Jane@Example.com'',
           mobile = Some ''0412345678'', position = None, institution = None, address = None\<rparr>
           empty_database"
    by (simp add: existingSignature_def empty_database_def)
  have sa: "send_all delivering = None"
    by (simp add: send_all_def delivering_def)
  show ?thesis
    by (simp add: post_signatures_cases [OF b] first_request_allowed validate_examples d x sa
        store_pending_jane a)
qed

lemma second_request_allowed:
  "allowed (rateLimitResponse delivering (submission em mo) jane_state)"
  by (simp add: rateLimitResponse_def client_ip_def submission_def falsy_def str_def
      jane_state_def fetch_def allowed_def json_ok_def delivering_def maxRequests_def)

lemma not_existing_empty: "\<not> existingSignature b (db initial_state)"
  by (simp add: existingSignature_def initial_state_def empty_database_def)

lemma send_all_examples:
  "send_all delivering = None" "send_all sms_failing = Some sns_error"
  by (simp_all add: send_all_def delivering_def sms_failing_def)

lemma jane_row_in_store: "jane_row \<in> set (public_signatures (db jane_state))"
  by (simp add: jane_state_def jane_database_def)

lemma existing_jane:
  "existingSignature
     \<lparr>name = Some ''Jane Doe'', email = Some ''jane@example.com'', mobile = Some ''0412345678'',
      position = None, institution = None, address = None\<rparr> (db jane_state)"
  by (simp add: existingSignature_def jane_state_def jane_database_def jane_row_def
      emailHash_def str_def lower_jane)

lemma exhausted_not_allowed:
  "\<not> allowed (rateLimitResponse delivering (submission em mo) exhausted_state)"
  by (simp add: rateLimitResponse_def client_ip_def submission_def falsy_def str_def
      exhausted_state_def fetch_def allowed_def json_def delivering_def maxRequests_def)

subsection \<open>Rollback on delivery failure\<close>

text \<open>
  Claim C2. When a submission has passed the rate limit, the validation and the duplicate check,
  the handler inserts the signature row and its two code rows; if then the e-mail dispatch or
  the SMS dispatch fails, it answers with the delivery failure (status 500) and deletes the row it
  has just created, and the codes go with it: afterwards no signature row and no code row with
  the new id exists, and the table of signatures is the one before the submission.
\<close>

theorem delivery_failure_rolls_back:
  assumes "json_body req = Some b"
    and "allowed (rateLimitResponse e req s)"
    and "validate_input b = None"
    and "\<not> existingSignature b (db s)"
    and "sendEmailVerification e \<noteq> None \<or> sendSmsVerification e \<noteq> None"
  shows
   "(\<exists>r\<in>set (public_signatures (snd (store_pending e b (db s)))).
       sig_id r = next_signature_id (db s)) \<and>
    length (filter (\<lambda>c. signature_id c = next_signature_id (db s))
              (verification_codes (snd (store_pending e b (db s))))) \<ge> 2 \<and>
    (\<exists>x. send_all e = Some x \<and> fst (post_signatures e req s) = delivery_failed x) \<and>
    status (fst (post_signatures e req s)) = 500 \<and>
    public_signatures (db (snd (post_signatures e req s))) = public_signatures (db s) \<and>
    verification_codes (db (snd (post_signatures e req s))) =
      filter (\<lambda>c. signature_id c \<noteq> next_signature_id (db s)) (verification_codes (db s)) \<and>
    (\<forall>r\<in>set (public_signatures (db (snd (post_signatures e req s)))).
       sig_id r \<noteq> next_signature_id (db s)) \<and>
    (\<forall>c\<in>set (verification_codes (db (snd (post_signatures e req s)))).
       signature_id c \<noteq> next_signature_id (db s))"
proof -
  let ?i = "next_signature_id (db s)"
  let ?d3 = "snd (store_pending e b (db s))"
  obtain x where x: "send_all e = Some x"
    using send_all_fails [OF assms(5)] by blast
  have post: "post_signatures e req s =
      (delivery_failed x, (after_rate_limit e req s)\<lparr>db := delete_signature ?i ?d3\<rparr>)"
    using assms(2-4) x by (simp add: post_signatures_cases [OF assms(1)] fst_store_pending)
  have inserted: "\<exists>r\<in>set (public_signatures ?d3). sig_id r = ?i"
    by (simp add: public_signatures_store_pending)
  obtain j k where "verification_codes ?d3 =
     verification_codes (db s) @
       [\<lparr>code_id = j, signature_id = ?i, code_type = ''email'',
         code_hash = hashCode (generated_emailCode e), expires_at = expiry_now e + 600000,
         attempts = 0, verified_at = None\<rparr>,
        \<lparr>code_id = k, signature_id = ?i, code_type = ''phone'',
         code_hash = hashCode (generated_smsCode e), expires_at = expiry_now e + 600000,
         attempts = 0, verified_at = None\<rparr>]"
    using verification_codes_store_pending by blast
  then have two: "length (filter (\<lambda>c. signature_id c = ?i) (verification_codes ?d3)) \<ge> 2"
    by simp
  have sigs: "public_signatures (db (snd (post_signatures e req s))) = public_signatures (db s)"
    by (simp add: post rollback_signatures)
  have cds: "verification_codes (db (snd (post_signatures e req s))) =
      filter (\<lambda>c. signature_id c \<noteq> ?i) (verification_codes (db s))"
    by (simp add: post rollback_codes)
  have no_sig: "\<forall>r\<in>set (public_signatures (db (snd (post_signatures e req s)))). sig_id r \<noteq> ?i"
    unfolding sigs by (simp add: next_signature_id_unused)
  have no_code: "\<forall>c\<in>set (verification_codes (db (snd (post_signatures e req s)))).
       signature_id c \<noteq> ?i"
    unfolding cds by simp
  have st: "status (fst (post_signatures e req s)) = 500"
    by (simp add: post response_status)
  have resp: "\<exists>x. send_all e = Some x \<and> fst (post_signatures e req s) = delivery_failed x"
    using x post by simp
  show ?thesis
    using inserted two resp st sigs cds no_sig no_code by blast
qed

theorem delivery_failure_rolls_back_witness:
  "sendSmsVerification sms_failing \<noteq> None \<and>
   fst (post_signatures sms_failing (submission ''Jane@Example.com'' ''0412345678'') initial_state) =
     delivery_failed sns_error \<and>
   public_signatures
     (db (snd (post_signatures sms_failing (submission ''Jane@Example.com'' ''0412345678'')
                 initial_state))) = [] \<and>
   verification_codes
     (db (snd (post_signatures sms_failing (submission ''Jane@Example.com'' ''0412345678'')
                 initial_state))) = []"
proof -
  have f: "sendEmailVerification sms_failing \<noteq> None \<or> sendSmsVerification sms_failing \<noteq> None"
    by (simp add: sms_failing_def)
  note t = delivery_failure_rolls_back [OF body_examples first_request_allowed(2)
        validate_examples(1) not_existing_empty f]
  obtain x where "send_all sms_failing = Some x"
    and "fst (post_signatures sms_failing (submission ''Jane@Example.com'' ''0412345678'')
           initial_state) = delivery_failed x"
    using t by blast
  then have r: "fst (post_signatures sms_failing (submission ''Jane@Example.com'' ''0412345678'')
           initial_state) = delivery_failed sns_error"
    by (simp add: send_all_examples)
  have e: "public_signatures (db initial_state) = []" "verification_codes (db initial_state) = []"
    by (simp_all add: initial_state_def empty_database_def)
  have sg: "public_signatures
     (db (snd (post_signatures sms_failing (submission ''Jane@Example.com'' ''0412345678'')
                 initial_state))) = []"
    using t e(1) by simp
  have cd: "verification_codes
     (db (snd (post_signatures sms_failing (submission ''Jane@Example.com'' ''0412345678'')
                 initial_state))) = []"
    using t e(2) by simp
  have "sendSmsVerification sms_failing \<noteq> None"
    by (simp add: sms_failing_def)
  then show ?thesis
    using r sg cd by blast
qed

subsection \<open>Duplicate identities\<close>

text \<open>
  Claim C5. A submission that has passed the rate limit and the validation, and whose e-mail hash
  or telephone hash equals the one of any existing signature row, verified or not, is rejected
  with the duplicate-identity response, and the store stays as it is. Whatever the request, a
  store in which every e-mail hash and every telephone hash backs at most one signature row is
  again such a store after the handler has run.
\<close>

theorem duplicate_identity_rejected:
  assumes "json_body req = Some b"
  shows
   "(allowed (rateLimitResponse e req s) \<and> validate_input b = None \<and>
     r \<in> set (public_signatures (db s)) \<and>
     (email_hash r = hashString (toLowerCase (str (email b))) \<or>
      phone_hash r = hashString (strip_non_digits (str (mobile b)))) \<longrightarrow>
       fst (post_signatures e req s) = already_used \<and>
       db (snd (post_signatures e req s)) = db s) \<and>
    (unique_identities (db s) \<longrightarrow> unique_identities (db (snd (post_signatures e req s))))"
proof (intro conjI impI)
  assume a: "allowed (rateLimitResponse e req s) \<and> validate_input b = None \<and>
     r \<in> set (public_signatures (db s)) \<and>
     (email_hash r = hashString (toLowerCase (str (email b))) \<or>
      phone_hash r = hashString (strip_non_digits (str (mobile b))))"
  then have "existingSignature b (db s)"
    by (auto simp: existingSignature_def list_ex_iff emailHash_def phoneHash_def cleanMobile_def)
  with a show "fst (post_signatures e req s) = already_used"
    and "db (snd (post_signatures e req s)) = db s"
    by (simp_all add: post_signatures_cases [OF assms] db_after_rate_limit)
next
  assume u: "unique_identities (db s)"
  show "unique_identities (db (snd (post_signatures e req s)))"
    using u unique_store_pending [of "db s" b e]
      unique_delete_signature [of "snd (store_pending e b (db s))"]
    by (auto simp: post_signatures_cases [OF assms] db_after_rate_limit split: option.splits)
qed

theorem duplicate_identity_rejected_witness:
  "jane_row \<in> set (public_signatures (db jane_state)) \<and>
   email_hash jane_row = hashString (toLowerCase ''jane@example.com'') \<and>
   fst (post_signatures delivering (submission ''jane@example.com'' ''0412345678'') jane_state) =
     already_used \<and>
   db (snd (post_signatures delivering (submission ''jane@example.com'' ''0412345678'') jane_state)) =
     jane_database \<and>
   unique_identities
     (db (snd (post_signatures delivering (submission ''jane@example.com'' ''0412345678'')
                 jane_state)))"
proof -
  have u: "unique_identities (db jane_state)"
    by (simp add: unique_identities_def jane_state_def jane_database_def)
  have h: "email_hash jane_row = hashString (toLowerCase ''jane@example.com'')"
    by (simp add: jane_row_def lower_jane)
  have d: "db jane_state = jane_database"
    by (simp add: jane_state_def)
  show ?thesis
    using duplicate_identity_rejected [OF body_examples, of delivering
        "''jane@example.com''" "''0412345678''" jane_state jane_row]
      second_request_allowed validate_examples(2) jane_row_in_store u h d
    by (simp add: str_def)
qed

subsection \<open>Normalisation of the e-mail address\<close>

text \<open>
  Claim C6, as stated, says that the address is lower-cased and trimmed, so that after
  \<open>Jane@Example.com\<close> a submission with \<open>jane@example.com\<close> and a trailing space is a duplicate.
  The handler does not trim: the second submission fails the format check.
\<close>

theorem trailing_space_is_invalid_input:
  "fst (post_signatures delivering (submission ''Jane@Example.com'' ''0412345678'') initial_state) =
     codes_sent 1 \<and>
   fst (post_signatures delivering (submission ''jane@example.com '' ''0412345678'')
          (snd (post_signatures delivering (submission ''Jane@Example.com'' ''0412345678'')
                  initial_state))) = invalid_email_format \<and>
   invalid_email_format \<noteq> already_used"
proof -
  have 1: "fst (post_signatures delivering (submission ''Jane@Example.com'' ''0412345678'')
      initial_state) = codes_sent 1"
    by (simp add: jane_accepted)
  have 2: "fst (post_signatures delivering (submission ''jane@example.com '' ''0412345678'')
          (snd (post_signatures delivering (submission ''Jane@Example.com'' ''0412345678'')
                  initial_state))) = invalid_email_format"
    unfolding jane_accepted snd_conv
    by (simp add: post_signatures_cases [OF body_examples] second_request_allowed
        validate_examples)
  have 3: "invalid_email_format \<noteq> already_used"
    by (simp add: invalid_email_format_def already_used_def json_def)
  show ?thesis
    using 1 2 3 by blast
qed

text \<open>
  Claim C6, amended. The address is lower-cased, and not trimmed, before hashing: two bodies
  whose addresses differ only in letter case have the same e-mail hash; an address that
  contains white space, at either end or inside, is rejected as an invalid e-mail format and
  nothing is stored; and after a successful submission, a submission whose address differs only
  in letter case, and which passes the rate limit and the validation, is rejected as a
  duplicate.
\<close>

theorem email_normalised_by_lower_casing:
  assumes "json_body req = Some b" and "json_body req' = Some b'"
  shows
   "(toLowerCase (str (email b')) = toLowerCase (str (email b)) \<longrightarrow>
       emailHash b' = emailHash b) \<and>
    (allowed (rateLimitResponse e req s) \<and>
     \<not> falsy (name b) \<and> \<not> falsy (email b) \<and> \<not> falsy (mobile b) \<and>
     (\<exists>c\<in>set (str (email b)). is_space c) \<longrightarrow>
       fst (post_signatures e req s) = invalid_email_format \<and>
       db (snd (post_signatures e req s)) = db s) \<and>
    (status (fst (post_signatures e req s)) = 200 \<and>
     toLowerCase (str (email b')) = toLowerCase (str (email b)) \<and>
     allowed (rateLimitResponse e' req' (snd (post_signatures e req s))) \<and>
     validate_input b' = None \<longrightarrow>
       fst (post_signatures e' req' (snd (post_signatures e req s))) = already_used)"
proof (intro conjI impI)
  assume "toLowerCase (str (email b')) = toLowerCase (str (email b))"
  then show "emailHash b' = emailHash b"
    by (simp add: emailHash_def)
next
  assume a: "allowed (rateLimitResponse e req s) \<and>
     \<not> falsy (name b) \<and> \<not> falsy (email b) \<and> \<not> falsy (mobile b) \<and>
     (\<exists>c\<in>set (str (email b)). is_space c)"
  then have "\<not> emailRegex_test (str (email b))"
    using emailRegex_no_space [of "str (email b)"] by blast
  with a have "validate_input b = Some invalid_email_format"
    by (simp add: validate_input_def)
  with a show "fst (post_signatures e req s) = invalid_email_format"
    and "db (snd (post_signatures e req s)) = db s"
    by (simp_all add: post_signatures_cases [OF assms(1)] db_after_rate_limit)
next
  let ?s1 = "snd (post_signatures e req s)"
  assume a: "status (fst (post_signatures e req s)) = 200 \<and>
     toLowerCase (str (email b')) = toLowerCase (str (email b)) \<and>
     allowed (rateLimitResponse e' req' ?s1) \<and> validate_input b' = None"
  then obtain r where "r \<in> set (public_signatures (db ?s1))" "email_hash r = emailHash b"
    using success_stores_hashes [OF assms(1)] by blast
  moreover have "emailHash b' = emailHash b"
    using a by (simp add: emailHash_def)
  ultimately have "existingSignature b' (db ?s1)"
    by (auto simp: existingSignature_def list_ex_iff)
  with a show "fst (post_signatures e' req' ?s1) = already_used"
    by (simp add: post_signatures_cases [OF assms(2)])
qed

theorem email_normalised_by_lower_casing_witness:
  "toLowerCase ''jane@example.com'' = toLowerCase ''Jane@Example.com'' \<and>
   hashString (toLowerCase ''jane@example.com'') = hashString (toLowerCase ''Jane@Example.com'') \<and>
   status (fst (post_signatures delivering (submission ''Jane@Example.com'' ''0412345678'')
                  initial_state)) = 200 \<and>
   fst (post_signatures delivering (submission ''jane@example.com'' ''0412345678'')
          (snd (post_signatures delivering (submission ''Jane@Example.com'' ''0412345678'')
                  initial_state))) = already_used \<and>
   is_space CHR '' '' \<and>
   fst (post_signatures delivering (submission ''jane@example.com '' ''0412345678'') jane_state) =
     invalid_email_format"
proof -
  have st: "status (fst (post_signatures delivering
      (submission ''Jane@Example.com'' ''0412345678'') initial_state)) = 200"
    by (simp add: jane_accepted response_status)
  have al: "allowed (rateLimitResponse delivering (submission ''jane@example.com'' ''0412345678'')
      (snd (post_signatures delivering (submission ''Jane@Example.com'' ''0412345678'')
              initial_state)))"
    unfolding jane_accepted snd_conv by (rule second_request_allowed)
  have lo: "toLowerCase (str (Some ''jane@example.com'')) = toLowerCase (str (Some ''Jane@Example.com''))"
    by (simp add: str_def lower_jane)
  note t = email_normalised_by_lower_casing
    [OF body_examples [of "''Jane@Example.com''" "''0412345678''"]
        body_examples [of "''jane@example.com''" "''0412345678''"],
     where e = delivering and s = initial_state and e' = delivering]
  have du: "fst (post_signatures delivering (submission ''jane@example.com'' ''0412345678'')
          (snd (post_signatures delivering (submission ''Jane@Example.com'' ''0412345678'')
                  initial_state))) = already_used"
    using t st al lo validate_examples(2) by simp
  have sp: "\<exists>c\<in>set (str (Some ''jane@example.com '')). is_space c"
    by (simp add: str_def space_is_space)
  note t' = email_normalised_by_lower_casing
    [OF body_examples [of "''jane@example.com ''" "''0412345678''"]
        body_examples [of "''jane@example.com''" "''0412345678''"],
     where e = delivering and s = jane_state and e' = delivering]
  have iv: "fst (post_signatures delivering (submission ''jane@example.com '' ''0412345678'')
      jane_state) = invalid_email_format"
    using t' second_request_allowed [of "''jane@example.com ''" "''0412345678''"] sp
    by (simp add: falsy_def)
  have "hashString (toLowerCase ''jane@example.com'') = hashString (toLowerCase ''Jane@Example.com'')"
    using lo by (simp add: str_def)
  then show ?thesis
    using st du lo iv by (simp add: str_def space_is_space)
qed

subsection \<open>Validation of the mobile number\<close>

text \<open>
  Claim C7, as stated, accepts every ten-digit number that starts with \<open>0\<close>. The handler asks
  for the prefix \<open>04\<close>: the number \<open>0312345678\<close> is rejected.
\<close>

theorem mobile_03_rejected:
  "strip_non_digits ''0312345678'' = ''0312345678'' \<and>
   length ''0312345678'' = 10 \<and> hd ''0312345678'' = CHR ''0'' \<and>
   fst (post_signatures delivering (submission ''jane@example.com'' ''0312345678'') initial_state) =
     invalid_mobile"
  by (simp add: digits_mobile post_signatures_cases [OF body_examples] first_request_allowed
      validate_examples)

text \<open>
  Claim C7, amended. For a submission that passes the rate limit, carries a name, an e-mail
  address and a mobile number, and whose address has a valid format, the mobile number is
  accepted exactly when, with every non-digit removed, it has ten digits and starts with
  \<open>04\<close>; any other mobile number is rejected as invalid input, and the store stays as it is.
\<close>

theorem mobile_accepted_iff_ten_digits_from_04:
  assumes "json_body req = Some b"
    and "allowed (rateLimitResponse e req s)"
    and "\<not> falsy (name b)" "\<not> falsy (email b)" "\<not> falsy (mobile b)"
    and "emailRegex_test (str (email b))"
  shows
   "(fst (post_signatures e req s) \<noteq> invalid_mobile) =
      (length (strip_non_digits (str (mobile b))) = 10 \<and>
       take 2 (strip_non_digits (str (mobile b))) = ''04'') \<and>
    (fst (post_signatures e req s) = invalid_mobile \<longrightarrow>
       db (snd (post_signatures e req s)) = db s)"
  using assms(2-)
  by (auto simp: post_signatures_cases [OF assms(1)] validate_input_def cleanMobile_def
      startsWith_04 response_distinct db_after_rate_limit split: option.splits)

theorem mobile_accepted_iff_ten_digits_from_04_witness:
  "emailRegex_test ''jane@example.com'' \<and>
   length (strip_non_digits ''0412345678'') = 10 \<and>
   take 2 (strip_non_digits ''0412345678'') = ''04'' \<and>
   fst (post_signatures delivering (submission ''jane@example.com'' ''0412345678'') initial_state) \<noteq>
     invalid_mobile \<and>
   take 2 (strip_non_digits ''0312345678'') \<noteq> ''04'' \<and>
   fst (post_signatures delivering (submission ''jane@example.com'' ''0312345678'') initial_state) =
     invalid_mobile \<and>
   db (snd (post_signatures delivering (submission ''jane@example.com'' ''0312345678'')
              initial_state)) = db initial_state"
proof -
  have 1: "fst (post_signatures delivering (submission ''jane@example.com'' ''0412345678'')
      initial_state) \<noteq> invalid_mobile"
    using mobile_accepted_iff_ten_digits_from_04 [OF body_examples first_request_allowed(1),
        of "''jane@example.com''" "''0412345678''"]
    by (simp add: falsy_def str_def regex_jane digits_mobile)
  have 2: "fst (post_signatures delivering (submission ''jane@example.com'' ''0312345678'')
      initial_state) = invalid_mobile \<and>
    db (snd (post_signatures delivering (submission ''jane@example.com'' ''0312345678'')
              initial_state)) = db initial_state"
    using mobile_accepted_iff_ten_digits_from_04 [OF body_examples first_request_allowed(1),
        of "''jane@example.com''" "''0312345678''"]
    by (simp add: falsy_def str_def regex_jane digits_mobile)
  show ?thesis
    using 1 2 by (simp add: regex_jane digits_mobile)
qed

subsection \<open>Status codes\<close>

text \<open>
  Claim C9, as stated, expects status 201 on success and status 400 for a duplicate identity.
  The handler answers a success with status 200 and a duplicate with status 409.
\<close>

theorem success_is_200_and_duplicate_is_409:
  "status (fst (post_signatures delivering (submission ''Jane@Example.com'' ''0412345678'')
                  initial_state)) = 200 \<and>
   status (fst (post_signatures delivering (submission ''jane@example.com'' ''0412345678'')
                  (snd (post_signatures delivering
                          (submission ''Jane@Example.com'' ''0412345678'') initial_state)))) = 409"
proof -
  have 1: "status (fst (post_signatures delivering (submission ''Jane@Example.com'' ''0412345678'')
                  initial_state)) = 200"
    by (simp add: jane_accepted response_status)
  have 2: "status (fst (post_signatures delivering (submission ''jane@example.com'' ''0412345678'')
                  (snd (post_signatures delivering
                          (submission ''Jane@Example.com'' ''0412345678'') initial_state)))) = 409"
    unfolding jane_accepted snd_conv
    by (simp add: post_signatures_cases [OF body_examples] second_request_allowed
        validate_examples existing_jane response_status)
  show ?thesis
    using 1 2 by blast
qed

text \<open>
  Claim C9, amended. For a request with a JSON body the handler answers with status 429 when the
  rate limiter rejects, with status 400 when the validation fails, with status 409 for a
  duplicate identity, with status 500 when a dispatch fails, and otherwise with status 200 and a
  body that holds the new id.
\<close>

theorem post_signatures_status:
  assumes "json_body req = Some b"
  shows
   "(\<not> allowed (rateLimitResponse e req s) \<longrightarrow>
       status (fst (post_signatures e req s)) = 429) \<and>
    (allowed (rateLimitResponse e req s) \<and> validate_input b \<noteq> None \<longrightarrow>
       status (fst (post_signatures e req s)) = 400) \<and>
    (allowed (rateLimitResponse e req s) \<and> validate_input b = None \<and>
     existingSignature b (db s) \<longrightarrow>
       status (fst (post_signatures e req s)) = 409) \<and>
    (allowed (rateLimitResponse e req s) \<and> validate_input b = None \<and>
     \<not> existingSignature b (db s) \<and> send_all e \<noteq> None \<longrightarrow>
       status (fst (post_signatures e req s)) = 500) \<and>
    (allowed (rateLimitResponse e req s) \<and> validate_input b = None \<and>
     \<not> existingSignature b (db s) \<and> send_all e = None \<longrightarrow>
       fst (post_signatures e req s) =
         \<lparr>status = 200,
          body = Created (next_signature_id (db s))
                   ''Verification codes sent to your email and phone''\<rparr>)"
  using validate_input_status [of b]
  by (auto simp: post_signatures_cases [OF assms] response_status fst_store_pending
      codes_sent_def json_ok_def split: option.splits)

theorem post_signatures_status_witness:
  "fst (post_signatures delivering (submission ''Jane@Example.com'' ''0412345678'') initial_state) =
     \<lparr>status = 200, body = Created 1 ''Verification codes sent to your email and phone''\<rparr> \<and>
   status (fst (post_signatures delivering (submission ''jane@example.com'' ''0312345678'')
                  initial_state)) = 400 \<and>
   status (fst (post_signatures delivering (submission ''jane@example.com'' ''0412345678'')
                  jane_state)) = 409 \<and>
   status (fst (post_signatures delivering (submission ''jane@example.com'' ''0412345678'')
                  exhausted_state)) = 429 \<and>
   status (fst (post_signatures sms_failing (submission ''Jane@Example.com'' ''0412345678'')
                  initial_state)) = 500"
proof -
  have n: "next_signature_id (db initial_state) = 1"
    by (simp add: next_signature_id_def initial_state_def empty_database_def)
  have 1: "fst (post_signatures delivering (submission ''Jane@Example.com'' ''0412345678'')
      initial_state) =
     \<lparr>status = 200, body = Created 1 ''Verification codes sent to your email and phone''\<rparr>"
    using post_signatures_status [OF body_examples, of delivering "''Jane@Example.com''"
        "''0412345678''" initial_state]
      first_request_allowed(1) validate_examples(1) not_existing_empty send_all_examples(1) n
    by simp
  have 2: "status (fst (post_signatures delivering (submission ''jane@example.com'' ''0312345678'')
                  initial_state)) = 400"
    using post_signatures_status [OF body_examples, of delivering "''jane@example.com''"
        "''0312345678''" initial_state]
      first_request_allowed(1) validate_examples(4)
    by simp
  have 3: "status (fst (post_signatures delivering (submission ''jane@example.com'' ''0412345678'')
                  jane_state)) = 409"
    using post_signatures_status [OF body_examples, of delivering "''jane@example.com''"
        "''0412345678''" jane_state]
      second_request_allowed validate_examples(2) existing_jane
    by simp
  have 4: "status (fst (post_signatures delivering (submission ''jane@example.com'' ''0412345678'')
                  exhausted_state)) = 429"
    using post_signatures_status [OF body_examples, of delivering "''jane@example.com''"
        "''0412345678''" exhausted_state]
      exhausted_not_allowed
    by simp
  have 5: "status (fst (post_signatures sms_failing (submission ''Jane@Example.com'' ''0412345678'')
                  initial_state)) = 500"
    using post_signatures_status [OF body_examples, of sms_failing "''Jane@Example.com''"
        "''0412345678''" initial_state]
      first_request_allowed(2) validate_examples(1) not_existing_empty send_all_examples(2)
    by simp
  show ?thesis
    using 1 2 3 4 5 by blast
qed

section \<open>Verification\<close>

lemma post_verify_open:
  assumes "has_codes b" and "open_for_attempt now i d ev pv"
  shows "post_verify now i (Some b) d =
     check_codes now i (hashCode (str (emailCode b))) (hashCode (str (smsCode b))) ev pv d"
  using assms
  by (auto simp: post_verify_def open_for_attempt_def has_codes_def Let_def split: option.splits)

lemma selected_attempts: "selected i (c\<lparr>attempts := x\<rparr>) = selected i c"
  by (simp add: selected_def)

lemma filter_selected_increment:
  "filter (selected i)
     (map (\<lambda>c. if selected i c then c\<lparr>attempts := attempts c + 1\<rparr> else c) cs) =
   map (\<lambda>c. c\<lparr>attempts := attempts c + 1\<rparr>) (filter (selected i) cs)"
  by (induction cs) (simp_all add: selected_attempts)

lemma find_type_increment:
  "find (\<lambda>c. code_type c = ty) (map (\<lambda>c. c\<lparr>attempts := attempts c + 1\<rparr>) cs) =
   map_option (\<lambda>c. c\<lparr>attempts := attempts c + 1\<rparr>) (find (\<lambda>c. code_type c = ty) cs)"
  by (induction cs) simp_all

lemma code_records_increment:
  assumes "code_records i d = Some (ev, pv)"
  shows "code_records i (increment_attempts i d) =
     Some (ev\<lparr>attempts := attempts ev + 1\<rparr>, pv\<lparr>attempts := attempts pv + 1\<rparr>)"
  using assms
  by (auto simp: code_records_def increment_attempts_def filter_selected_increment
      find_type_increment Let_def split: if_splits option.splits)

lemma open_after_failed_attempt:
  assumes "open_for_attempt now i d ev pv"
    and "now' \<le> expires_at ev" and "now' \<le> expires_at pv"
  shows "open_for_attempt now' i (increment_attempts i d)
     (ev\<lparr>attempts := attempts ev + 1\<rparr>) (pv\<lparr>attempts := attempts pv + 1\<rparr>)"
proof -
  have c: "code_records i d = Some (ev, pv)"
    using assms(1) by (simp add: open_for_attempt_def)
  have p: "public_signatures (increment_attempts i d) = public_signatures d"
    by (simp add: increment_attempts_def)
  show ?thesis
    using assms by (simp add: open_for_attempt_def code_records_increment [OF c] p)
qed

lemma codes_match_attempts:
  "codes_match (c\<lparr>attempts := u\<rparr>) (c'\<lparr>attempts := v\<rparr>) x = codes_match c c' x"
  by (simp add: codes_match_def)

lemma failed_attempt:
  assumes "has_codes b" and "open_for_attempt now i d ev pv"
    and "attempts ev < 3" and "attempts pv < 3" and "\<not> codes_match ev pv b"
  shows "post_verify now i (Some b) d =
     (invalid_codes (min (3 - (attempts ev + 1)) (3 - (attempts pv + 1))),
      increment_attempts i d)"
  using assms(2-)
  by (auto simp: post_verify_open [OF assms(1,2)] check_codes_def open_for_attempt_def
      codes_match_def Let_def)

lemma exhausted_attempt:
  assumes "has_codes b" and "open_for_attempt now i d ev pv"
    and "3 \<le> attempts ev \<or> 3 \<le> attempts pv"
  shows "post_verify now i (Some b) d = (too_many_attempts, d)"
  using assms(2-)
  by (auto simp: post_verify_open [OF assms(1,2)] check_codes_def open_for_attempt_def)

lemma has_codes_examples: "has_codes (codes ec sc) = (ec \<noteq> [] \<and> sc \<noteq> [])"
  by (simp add: has_codes_def codes_def falsy_def)

lemma jane_open:
  "now \<le> 601001 \<Longrightarrow> open_for_attempt now 1 jane_database jane_email_code jane_phone_code"
  by (simp add: open_for_attempt_def code_records_def selected_def jane_database_def
      jane_row_def jane_email_code_def jane_phone_code_def)

lemma wrong_email_code:
  "\<not> codes_match jane_email_code jane_phone_code (codes ''000000'' ''654321'')"
  by (simp add: codes_match_def codes_def str_def jane_email_code_def hashCode_000000
      hashCode_123456)

lemma right_codes:
  "codes_match jane_email_code jane_phone_code (codes ''123456'' ''654321'')"
  by (simp add: codes_match_def codes_def str_def jane_email_code_def jane_phone_code_def)

lemma jane_attempts: "attempts jane_email_code = 0" "attempts jane_phone_code = 0"
  "expires_at jane_email_code = 601001" "expires_at jane_phone_code = 601001"
  by (simp_all add: jane_email_code_def jane_phone_code_def)

text \<open>
  Claim C3. When a verification request reaches the comparison of the codes (both codes are
  present, the signature exists and is not yet verified, its two code records exist, are not both
  verified, have not expired and have fewer than three attempts) and at least one submitted code
  does not match its stored hash, the attempts counter is incremented on both records, also on
  the one whose code was right, and the response is the invalid-codes response with status 400
  and \<open>attemptsRemaining = min (3 - newEmailAttempts) (3 - newPhoneAttempts)\<close>, not below 0, where
  the new counts are the incremented ones.
\<close>

theorem failed_attempt_counts_on_both_records:
  assumes "has_codes b" and "open_for_attempt now i d ev pv"
    and "attempts ev < 3" and "attempts pv < 3" and "\<not> codes_match ev pv b"
  shows
   "post_verify now i (Some b) d =
      (\<lparr>status = 400,
        body = InvalidCodes ''Invalid verification codes''
                 (max 0 (min (3 - (attempts ev + 1)) (3 - (attempts pv + 1))))\<rparr>,
       increment_attempts i d) \<and>
    code_records i (increment_attempts i d) =
      Some (ev\<lparr>attempts := attempts ev + 1\<rparr>, pv\<lparr>attempts := attempts pv + 1\<rparr>)"
proof -
  have "code_records i d = Some (ev, pv)"
    using assms(2) by (simp add: open_for_attempt_def)
  then have "code_records i (increment_attempts i d) =
      Some (ev\<lparr>attempts := attempts ev + 1\<rparr>, pv\<lparr>attempts := attempts pv + 1\<rparr>)"
    by (rule code_records_increment)
  moreover have "invalid_codes (min (3 - (attempts ev + 1)) (3 - (attempts pv + 1))) =
      \<lparr>status = 400,
       body = InvalidCodes ''Invalid verification codes''
                (max 0 (min (3 - (attempts ev + 1)) (3 - (attempts pv + 1))))\<rparr>"
    by (auto simp: invalid_codes_def json_def max_def)
  ultimately show ?thesis
    using failed_attempt [OF assms] by simp
qed

theorem failed_attempt_counts_on_both_records_witness:
  "\<not> codes_match jane_email_code jane_phone_code (codes ''000000'' ''654321'') \<and>
   code_hash jane_phone_code = hashCode ''654321'' \<and>
   post_verify 2000 1 (Some (codes ''000000'' ''654321'')) jane_database =
     (\<lparr>status = 400, body = InvalidCodes ''Invalid verification codes'' 2\<rparr>,
      increment_attempts 1 jane_database) \<and>
   code_records 1 (increment_attempts 1 jane_database) =
     Some (jane_email_code\<lparr>attempts := 1\<rparr>, jane_phone_code\<lparr>attempts := 1\<rparr>)"
proof -
  have h: "has_codes (codes ''000000'' ''654321'')"
    by (simp add: has_codes_examples)
  have o: "open_for_attempt 2000 1 jane_database jane_email_code jane_phone_code"
    by (rule jane_open) simp
  have p: "code_hash jane_phone_code = hashCode ''654321''"
    by (simp add: jane_phone_code_def)
  show ?thesis
    using failed_attempt_counts_on_both_records [OF h o _ _ wrong_email_code] wrong_email_code p
    by (simp add: jane_attempts)
qed

text \<open>
  Claim C4. When a verification request reaches the attempt limit (both codes are present, the
  signature exists and is not yet verified, its two code records exist, are not both verified and
  have not expired) and the e-mail record or the telephone record has three or more attempts, the
  response is the too-many-attempts response and the store stays as it is, whatever the submitted
  codes are. So after three failed attempts on fresh records a fourth attempt is rejected, also
  with the right codes.
\<close>

theorem attempts_exhausted:
  assumes "has_codes b" and "open_for_attempt now i d ev pv"
  shows
   "(3 \<le> attempts ev \<or> 3 \<le> attempts pv \<longrightarrow>
       post_verify now i (Some b) d = (too_many_attempts, d)) \<and>
    (attempts ev = 0 \<and> attempts pv = 0 \<and>
     has_codes b1 \<and> has_codes b2 \<and> has_codes b3 \<and>
     \<not> codes_match ev pv b1 \<and> \<not> codes_match ev pv b2 \<and> \<not> codes_match ev pv b3 \<and>
     (\<forall>t\<in>set [t1, t2, t3]. t \<le> expires_at ev \<and> t \<le> expires_at pv) \<longrightarrow>
       fst (attempts_run i [(t1, b1), (t2, b2), (t3, b3), (now, b)] d) =
         [invalid_codes 2, invalid_codes 1, invalid_codes 0, too_many_attempts])"
proof (intro conjI impI)
  assume "3 \<le> attempts ev \<or> 3 \<le> attempts pv"
  with assms show "post_verify now i (Some b) d = (too_many_attempts, d)"
    by (rule exhausted_attempt)
next
  assume a: "attempts ev = 0 \<and> attempts pv = 0 \<and>
     has_codes b1 \<and> has_codes b2 \<and> has_codes b3 \<and>
     \<not> codes_match ev pv b1 \<and> \<not> codes_match ev pv b2 \<and> \<not> codes_match ev pv b3 \<and>
     (\<forall>t\<in>set [t1, t2, t3]. t \<le> expires_at ev \<and> t \<le> expires_at pv)"
  have n: "now \<le> expires_at ev" "now \<le> expires_at pv"
    using assms(2) by (simp_all add: open_for_attempt_def)
  let ?g = "\<lambda>c. c\<lparr>attempts := attempts c + 1\<rparr>"
  let ?d1 = "increment_attempts i d"
  let ?d2 = "increment_attempts i ?d1"
  let ?d3 = "increment_attempts i ?d2"
  have o0: "open_for_attempt t1 i d ev pv"
    using assms(2) a by (simp add: open_for_attempt_def)
  have o1: "open_for_attempt t2 i ?d1 (?g ev) (?g pv)"
    using open_after_failed_attempt [OF o0, of t2] a by simp
  have o2: "open_for_attempt t3 i ?d2 (?g (?g ev)) (?g (?g pv))"
    using open_after_failed_attempt [OF o1, of t3] a by simp
  have o3: "open_for_attempt now i ?d3 (?g (?g (?g ev))) (?g (?g (?g pv)))"
    using open_after_failed_attempt [OF o2, of now] n by simp
  note m = codes_match_attempts
  have r1: "post_verify t1 i (Some b1) d = (invalid_codes 2, ?d1)"
    using failed_attempt [OF _ o0, of b1] a by simp
  have r2: "post_verify t2 i (Some b2) ?d1 = (invalid_codes 1, ?d2)"
    using failed_attempt [OF _ o1, of b2] a by (simp add: m)
  have r3: "post_verify t3 i (Some b3) ?d2 = (invalid_codes 0, ?d3)"
    using failed_attempt [OF _ o2, of b3] a by (simp add: m)
  have r4: "post_verify now i (Some b) ?d3 = (too_many_attempts, ?d3)"
    using exhausted_attempt [OF assms(1) o3] a by simp
  show "fst (attempts_run i [(t1, b1), (t2, b2), (t3, b3), (now, b)] d) =
         [invalid_codes 2, invalid_codes 1, invalid_codes 0, too_many_attempts]"
    by (simp add: r1 r2 r3 r4)
qed

theorem attempts_exhausted_witness:
  "codes_match jane_email_code jane_phone_code (codes ''123456'' ''654321'') \<and>
   fst (attempts_run 1
          [(2000, codes ''000000'' ''654321''), (3000, codes ''000000'' ''654321''),
           (4000, codes ''000000'' ''654321''), (5000, codes ''123456'' ''654321'')]
          jane_database) =
     [invalid_codes 2, invalid_codes 1, invalid_codes 0, too_many_attempts] \<and>
   post_verify 5000 1 (Some (codes ''123456'' ''654321''))
     (snd (attempts_run 1
        [(2000, codes ''000000'' ''654321''), (3000, codes ''000000'' ''654321''),
         (4000, codes ''000000'' ''654321'')] jane_database)) =
     (too_many_attempts,
      snd (attempts_run 1
        [(2000, codes ''000000'' ''654321''), (3000, codes ''000000'' ''654321''),
         (4000, codes ''000000'' ''654321'')] jane_database))"
proof -
  have h: "has_codes (codes ''123456'' ''654321'')" "has_codes (codes ''000000'' ''654321'')"
    by (simp_all add: has_codes_examples)
  have o: "open_for_attempt 5000 1 jane_database jane_email_code jane_phone_code"
    by (rule jane_open) simp
  note t = attempts_exhausted [OF h(1) o, of "codes ''000000'' ''654321''"
      "codes ''000000'' ''654321''" "codes ''000000'' ''654321''" 2000 3000 4000]
  have run: "fst (attempts_run 1
          [(2000, codes ''000000'' ''654321''), (3000, codes ''000000'' ''654321''),
           (4000, codes ''000000'' ''654321''), (5000, codes ''123456'' ''654321'')]
          jane_database) =
     [invalid_codes 2, invalid_codes 1, invalid_codes 0, too_many_attempts]"
    using t h(2) wrong_email_code by (simp add: jane_attempts del: attempts_run.simps)
  have last: "post_verify 5000 1 (Some (codes ''123456'' ''654321''))
     (snd (attempts_run 1
        [(2000, codes ''000000'' ''654321''), (3000, codes ''000000'' ''654321''),
         (4000, codes ''000000'' ''654321'')] jane_database)) =
     (too_many_attempts,
      snd (attempts_run 1
        [(2000, codes ''000000'' ''654321''), (3000, codes ''000000'' ''654321''),
         (4000, codes ''000000'' ''654321'')] jane_database))"
  proof -
    let ?w = "codes ''000000'' ''654321''"
    let ?g = "\<lambda>c. c\<lparr>attempts := attempts c + 1\<rparr>"
    have o0: "open_for_attempt 2000 1 jane_database jane_email_code jane_phone_code"
      by (rule jane_open) simp
    have o1: "open_for_attempt 3000 1 (increment_attempts 1 jane_database)
        (?g jane_email_code) (?g jane_phone_code)"
      using open_after_failed_attempt [OF o0, of 3000] by (simp add: jane_attempts)
    have o2: "open_for_attempt 4000 1 (increment_attempts 1 (increment_attempts 1 jane_database))
        (?g (?g jane_email_code)) (?g (?g jane_phone_code))"
      using open_after_failed_attempt [OF o1, of 4000] by (simp add: jane_attempts)
    have o3: "open_for_attempt 5000 1
        (increment_attempts 1 (increment_attempts 1 (increment_attempts 1 jane_database)))
        (?g (?g (?g jane_email_code))) (?g (?g (?g jane_phone_code)))"
      using open_after_failed_attempt [OF o2, of 5000] by (simp add: jane_attempts)
    note w = codes_match_attempts
    have r1: "post_verify 2000 1 (Some ?w) jane_database =
        (invalid_codes 2, increment_attempts 1 jane_database)"
      using failed_attempt [OF h(2) o0] wrong_email_code by (simp add: jane_attempts)
    have r2: "post_verify 3000 1 (Some ?w) (increment_attempts 1 jane_database) =
        (invalid_codes 1, increment_attempts 1 (increment_attempts 1 jane_database))"
      using failed_attempt [OF h(2) o1] wrong_email_code by (simp add: jane_attempts w)
    have r3: "post_verify 4000 1 (Some ?w) (increment_attempts 1 (increment_attempts 1 jane_database)) =
        (invalid_codes 0,
         increment_attempts 1 (increment_attempts 1 (increment_attempts 1 jane_database)))"
      using failed_attempt [OF h(2) o2] wrong_email_code by (simp add: jane_attempts w)
    have s: "snd (attempts_run 1 [(2000, ?w), (3000, ?w), (4000, ?w)] jane_database) =
        increment_attempts 1 (increment_attempts 1 (increment_attempts 1 jane_database))"
      by (simp only: attempts_run.simps r1 r2 r3 prod.case snd_conv)
    show ?thesis
      unfolding s using attempts_exhausted [OF h(1) o3] by (simp add: jane_attempts)
  qed
  show ?thesis
    using right_codes run last by blast
qed

section \<open>Counting\<close>

text \<open>
  Claim C8, as stated, says that the count is the number of verified signatures. The handler adds
  the number of initial signatories: with no signature and one initial signatory the count is 1.
\<close>

theorem count_not_only_verified:
  "publicCount founders_database = 0 \<and> get_signatures_count founders_database = json_ok (Count 1)"
  by (simp add: get_signatures_count_def publicCount_def initialCount_def founders_database_def
      empty_database_def)

text \<open>
  Claim C8, amended. The count endpoint answers with status 200 and the number of signature rows
  whose two flags are both set plus the number of rows of the table of initial signatories.
\<close>

theorem count_includes_initial_signatories:
  "get_signatures_count d =
     \<lparr>status = 200,
      body = Count (length (filter (\<lambda>r. email_verified r \<and> phone_verified r) (public_signatures d))
                    + length (initial_signatories d))\<rparr>"
  by (simp add: get_signatures_count_def json_ok_def publicCount_def initialCount_def)

end
